theory Spec2Isabelle
  imports Complex_Main "HOL-Library.Log_Nat" "HOL-Library.List_Lexorder" "HOL-Library.Char_ord"
begin

section \<open>The mock service (services/apiService)\<close>

text \<open>
  The service is one object with private mutable fields and three module-level
  values (\<open>mockAccounts\<close>, \<open>mockTransactions\<close> and the helper
  \<open>generateInvoice\<close>). The model passes all of that state explicitly: every
  method takes the state and returns its result together with the new state. A thrown
  \<open>Error\<close> is the left injection of the result.

  Conventions of the embedding:
  \<^item> a JavaScript \<open>number\<close> that holds money or a value of
    \<open>Math.random()\<close> is a binary64 floating-point number, represented by the
    rational number it denotes. Every arithmetic operation on such numbers rounds its
    exact result to the nearest binary64 number, ties to the even significand (\<open>fl\<close>
    below). \<open>NaN\<close>, the infinities, the sign of zero and results beyond the largest
    finite number are outside the model;
  \<^item> a \<open>number\<close> that holds a count, an index or a clock reading is an integer;
  \<^item> every reading of the clock (\<open>Date.now()\<close>, \<open>new Date()\<close>) and
    every value of \<open>Math.random()\<close> is an argument of the function that reads it;
  \<^item> an ISO date string produced by \<open>toISOString()\<close> is represented by the time
    value (milliseconds) it renders;
  \<^item> \<open>setDate(getDate() + k)\<close> moves a date by \<open>k\<close> days of the local
    calendar. The calendar belongs to the platform and is an argument (\<open>addDays\<close>)
    of the two functions that use it;
  \<^item> every method of the service is \<open>async\<close> and has one \<open>await\<close> of a
    timer. The code before the \<open>await\<close> runs without interruption, and so does the
    code after it; other calls can run in between. \<open>transferFunds\<close> is therefore
    two functions, one for each part, and a third that composes them for a call with
    nothing in between. In the three other methods the code after the \<open>await\<close>
    only reads from the state;
  \<^item> the \<open>toast\<close> notifications are not modelled.
\<close>

subsection \<open>Types\<close>

text \<open>
  The interfaces \<open>Transaction\<close>, \<open>Account\<close> and \<open>InvoiceData\<close>.
  A field whose name occurs in more than one of them (\<open>id\<close>, \<open>date\<close>,
  \<open>amount\<close>, \<open>description\<close>, \<open>status\<close>, ...) carries a prefix here.
\<close>

datatype tx_type = Debit | Credit

datatype tx_status = Pending | Completed | Failed

record transaction =
  tx_id :: string
  tx_date :: int
  tx_type :: tx_type
  tx_amount :: rat
  tx_description :: string
  tx_status :: tx_status
  tx_category :: string

record account =
  acc_id :: string
  acc_name :: string
  balance :: rat
  currency :: string
  accountNumber :: string
  routingNumber :: string

datatype invoice_status = InvPaid | InvPending | InvOverdue

record invoice_item =
  item_description :: string
  quantity :: int
  unitPrice :: rat
  item_amount :: rat

record invoice_data =
  inv_id :: string
  inv_date :: int
  dueDate :: int
  items :: "invoice_item list"
  inv_total :: rat
  inv_status :: invoice_status

text \<open>
  The three messages the service throws: \<open>"Rate limit exceeded"\<close>,
  \<open>"One or both accounts not found"\<close> and \<open>"Insufficient funds"\<close>.
\<close>

datatype error = RateLimited | NotFound | InsufficientFunds

text \<open>
  The value \<open>transferFunds\<close> resolves to. The message is the template string
  \<open>Successfully transferred $<amount> from <name> to <name>\<close>; its three holes are
  kept as they are.
\<close>

record transfer_result =
  success :: bool
  msg_amount :: rat
  msg_from :: string
  msg_to :: string

record page_result =
  data :: "transaction list"
  total :: nat

record api_state =
  token :: "string option"
  requestCount :: nat
  lastRequestTime :: int
  rateLimitReset :: int
  mockAccounts :: "account list"
  mockTransactions :: "transaction list"

subsection \<open>Numbers and strings of the platform\<close>

text \<open>
  Rounding to the nearest integer, a tie going to the even one.
\<close>

definition roundEven :: "rat \<Rightarrow> int" where
  "roundEven m =
     (let f = \<lfloor>m\<rfloor>; r = m - of_int f
      in if r < 1 / 2 then f else if 1 / 2 < r then f + 1 else if even f then f else f + 1)"

text \<open>
  The binary64 number nearest to a rational number. The binary64 numbers are the
  multiples \<open>n * 2^q / 2^1074\<close> with \<open>n < 2^53\<close>; the spacing \<open>2^q\<close>
  at \<open>x\<close> is the one that puts the significand of \<open>x\<close> between \<open>2^52\<close>
  and \<open>2^53\<close>, and it is \<open>1\<close> (in units of \<open>2^-1074\<close>) for the
  subnormal numbers. \<open>floorlog 2 n\<close> is the number of binary digits of \<open>n\<close>.
\<close>

definition tiny :: nat where
  "tiny = 1074"

definition fl :: "rat \<Rightarrow> rat" where
  "fl x =
     (let a = \<bar>x\<bar> * 2 ^ tiny;
          q = floorlog 2 (nat \<lfloor>a\<rfloor>) - 53
      in sgn x * of_int (roundEven (a / 2 ^ q)) * 2 ^ q / 2 ^ tiny)"

text \<open>
  \<open>x.toFixed(2)\<close>, as the number its digits denote. \<open>toFixed\<close> takes the
  sign off, leaves a value of at least \<open>10^21\<close> as it is, and otherwise picks the
  integer \<open>n\<close> with \<open>n / 100\<close> nearest to the exact value of \<open>x\<close>, the
  larger one of two. \<open>parseFloat\<close> reads such digits as the nearest binary64 number.
\<close>

definition toFixed2 :: "rat \<Rightarrow> rat" where
  "toFixed2 x =
     (if x < 0
      then (if 10 ^ 21 \<le> - x then x else - (of_int \<lfloor>(- x) * 100 + 1 / 2\<rfloor> / 100))
      else (if 10 ^ 21 \<le> x then x else of_int \<lfloor>x * 100 + 1 / 2\<rfloor> / 100))"

definition parseFloat :: "rat \<Rightarrow> rat" where
  "parseFloat x = fl x"

text \<open>The decimal rendering of an integer inside a template string.\<close>

definition digit_char :: "nat \<Rightarrow> char" where
  "digit_char d = ''0123456789'' ! d"

fun show_nat :: "nat \<Rightarrow> string" where
  "show_nat n = (if n < 10 then [digit_char n] else show_nat (n div 10) @ [digit_char (n mod 10)])"

declare show_nat.simps [simp del]

definition show_int :: "int \<Rightarrow> string" where
  "show_int i = (if i < 0 then CHR ''-'' # show_nat (nat (- i)) else show_nat (nat i))"

text \<open>
  \<open>Array.prototype.find\<close> returns a reference to the first element that satisfies
  the predicate; the reference is the element's position in the array.
\<close>

fun findIndex :: "('a \<Rightarrow> bool) \<Rightarrow> 'a list \<Rightarrow> nat option" where
  "findIndex p [] = None"
| "findIndex p (x # xs) =
     (if p x then Some 0 else (case findIndex p xs of None \<Rightarrow> None | Some i \<Rightarrow> Some (Suc i)))"

text \<open>
  \<open>Array.prototype.slice(start, end)\<close> on integer arguments: a negative index counts
  from the end, and both are clamped to the array.
\<close>

definition slice :: "'a list \<Rightarrow> int \<Rightarrow> int \<Rightarrow> 'a list" where
  "slice xs start end =
     (let len = int (length xs);
          k = (if start < 0 then max (len + start) 0 else min start len);
          fin = (if end < 0 then max (len + end) 0 else min end len)
      in take (nat (max (fin - k) 0)) (drop (nat k) xs))"

text \<open>
  The calendar of a platform whose time zone has no clock changes (UTC, for one): a
  calendar day is 86400000 milliseconds.
\<close>

definition utcDays :: "int \<Rightarrow> int \<Rightarrow> int" where
  "utcDays t k = t + k * 86400000"

subsection \<open>Seed data\<close>

text \<open>The literals \<open>5245.75\<close> and \<open>12735.40\<close> are binary64 numbers.\<close>

definition seedAccounts :: "account list" where
  "seedAccounts =
     [\<lparr>acc_id = ''acc-1'', acc_name = ''Checking Account'', balance = fl (524575 / 100),
       currency = ''USD'', accountNumber = ''9374846271'', routingNumber = ''072403952''\<rparr>,
      \<lparr>acc_id = ''acc-2'', acc_name = ''Savings Account'', balance = fl (1273540 / 100),
       currency = ''USD'', accountNumber = ''8362719405'', routingNumber = ''072403952''\<rparr>]"

text \<open>
  \<open>generateTransactions(count)\<close>. One pass of its loop reads the clock once and
  \<open>Math.random()\<close> six times, in this order: for the age of the record in days, its
  type, its amount, its category, its description and its status. \<open>count\<close> is the
  number of passes, the length of the list of these readings. A value of
  \<open>Math.random()\<close> is at least 0 and less than 1, so both indices are less than 8.
\<close>

record tx_draw =
  draw_now :: int
  draw_days :: rat
  draw_type :: rat
  draw_amount :: rat
  draw_category :: rat
  draw_description :: rat
  draw_status :: rat

definition categories :: "string list" where
  "categories = [''Groceries'', ''Entertainment'', ''Transportation'', ''Dining'', ''Shopping'',
     ''Utilities'', ''Health'', ''Travel'']"

definition descriptions :: "string list" where
  "descriptions = [''Payment to merchant'', ''Online purchase'', ''Subscription payment'',
     ''Transfer'', ''Bill payment'', ''Direct deposit'', ''ATM withdrawal'', ''Service fee'']"

definition drawTransaction :: "(int \<Rightarrow> int \<Rightarrow> int) \<Rightarrow> nat \<Rightarrow> tx_draw \<Rightarrow> transaction" where
  "drawTransaction addDays i d =
     \<lparr>tx_id = ''tx-'' @ show_int (int i + 1),
      tx_date = addDays (draw_now d) (- \<lfloor>fl (draw_days d * 30)\<rfloor>),
      tx_type = (if draw_type d > 1 / 2 then Debit else Credit),
      tx_amount = parseFloat (toFixed2 (fl (fl (draw_amount d * 500) + 10))),
      tx_description = descriptions ! nat \<lfloor>fl (draw_description d * of_nat (length descriptions))\<rfloor>,
      tx_status = (if draw_status d > fl (9 / 10) then Pending else Completed),
      tx_category = categories ! nat \<lfloor>fl (draw_category d * of_nat (length categories))\<rfloor>\<rparr>"

text \<open>The array after the loop, its passes numbered from \<open>i\<close>.\<close>

fun pushTransactions :: "(int \<Rightarrow> int \<Rightarrow> int) \<Rightarrow> nat \<Rightarrow> tx_draw list \<Rightarrow> transaction list" where
  "pushTransactions addDays i [] = []"
| "pushTransactions addDays i (d # ds) = drawTransaction addDays i d # pushTransactions addDays (Suc i) ds"

text \<open>
  \<open>Array.prototype.sort\<close> is stable; the comparison function
  \<open>(a, b) => time(b.date) - time(a.date)\<close> puts the later date first.
\<close>

definition generateTransactions :: "(int \<Rightarrow> int \<Rightarrow> int) \<Rightarrow> tx_draw list \<Rightarrow> transaction list" where
  "generateTransactions addDays draws = sort_key (\<lambda>t. - tx_date t) (pushTransactions addDays 0 draws)"

text \<open>
  The service as the module creates it. The initial log is the result of
  \<open>generateTransactions(50)\<close>; statements that do not depend on what is in the log
  take any log.
\<close>

definition initialState :: "transaction list \<Rightarrow> api_state" where
  "initialState txs =
     \<lparr>token = None, requestCount = 0, lastRequestTime = 0, rateLimitReset = 0,
      mockAccounts = seedAccounts, mockTransactions = txs\<rparr>"

subsection \<open>Rate limiting\<close>

definition checkRateLimit :: "int \<Rightarrow> api_state \<Rightarrow> bool \<times> api_state" where
  "checkRateLimit now s =
     (let s1 = (if now - lastRequestTime s > 60000
                then s\<lparr>requestCount := 0, rateLimitReset := now + 60000\<rparr>
                else s);
          s2 = s1\<lparr>requestCount := requestCount s1 + 1, lastRequestTime := now\<rparr>
      in (if requestCount s2 > 10 then (False, s2) else (True, s2)))"

subsection \<open>The methods\<close>

definition setToken :: "string \<Rightarrow> api_state \<Rightarrow> api_state" where
  "setToken t s = s\<lparr>token := Some t\<rparr>"

definition clearToken :: "api_state \<Rightarrow> api_state" where
  "clearToken s = s\<lparr>token := None\<rparr>"

text \<open>
  \<open>getBalance\<close> for a call with nothing in between: the copy of the accounts is
  made after the \<open>await\<close>, from the accounts as they are then.
\<close>

definition getBalance :: "int \<Rightarrow> api_state \<Rightarrow> (error + account list) \<times> api_state" where
  "getBalance now s =
     (case checkRateLimit now s of
        (False, s1) \<Rightarrow> (Inl RateLimited, s1)
      | (True, s1) \<Rightarrow> (Inr (mockAccounts s1), s1))"

text \<open>
  \<open>getTransactions\<close>; the defaults of its two parameters (1 and 10) serve a caller
  that leaves them out, and the model takes both. \<open>getTransactions_read\<close> is the
  code after the \<open>await\<close>: it reads the log as it is when the timer fires.
\<close>

definition getTransactions_read :: "int \<Rightarrow> int \<Rightarrow> api_state \<Rightarrow> page_result" where
  "getTransactions_read page pageSize s =
     (let start = (page - 1) * pageSize;
          end = start + pageSize;
          paginatedData = slice (mockTransactions s) start end
      in \<lparr>data = paginatedData, total = length (mockTransactions s)\<rparr>)"

definition getTransactions ::
  "int \<Rightarrow> int \<Rightarrow> int \<Rightarrow> api_state \<Rightarrow> (error + page_result) \<times> api_state" where
  "getTransactions now page pageSize s =
     (case checkRateLimit now s of
        (False, s1) \<Rightarrow> (Inl RateLimited, s1)
      | (True, s1) \<Rightarrow> (Inr (getTransactions_read page pageSize s1), s1))"

text \<open>
  \<open>transferFunds\<close> up to its \<open>await\<close>: the limiter, the two lookups and the
  comparison of the balance with the amount. The two accounts it found are references
  into \<open>mockAccounts\<close>, which the code after the \<open>await\<close> still holds; the array
  never grows or shrinks, so a reference is a position.
\<close>

record pending_transfer =
  pend_from :: nat
  pend_to :: nat
  pend_amount :: rat

definition transferFunds_begin ::
  "int \<Rightarrow> string \<Rightarrow> string \<Rightarrow> rat \<Rightarrow> api_state \<Rightarrow> (error + pending_transfer) \<times> api_state" where
  "transferFunds_begin now fromAccountId toAccountId amount s =
     (case checkRateLimit now s of
        (False, s1) \<Rightarrow> (Inl RateLimited, s1)
      | (True, s1) \<Rightarrow>
          (case findIndex (\<lambda>acc. acc_id acc = fromAccountId) (mockAccounts s1) of
             None \<Rightarrow> (Inl NotFound, s1)
           | Some i \<Rightarrow>
               (case findIndex (\<lambda>acc. acc_id acc = toAccountId) (mockAccounts s1) of
                  None \<Rightarrow> (Inl NotFound, s1)
                | Some j \<Rightarrow>
                    (if balance (mockAccounts s1 ! i) < amount then (Inl InsufficientFunds, s1)
                     else (Inr \<lparr>pend_from = i, pend_to = j, pend_amount = amount\<rparr>, s1)))))"

text \<open>
  \<open>transferFunds\<close> after its \<open>await\<close>: the two assignments and the two records.
  It reads the clock twice, for the date of the records (\<open>txDate\<close>) and for their id
  (\<open>txNow\<close>). The second assignment reads the balance the first one wrote when both
  references are the same account.
\<close>

definition transferFunds_resume ::
  "int \<Rightarrow> int \<Rightarrow> pending_transfer \<Rightarrow> api_state \<Rightarrow> transfer_result \<times> api_state" where
  "transferFunds_resume txDate txNow p s =
     (let i = pend_from p;
          j = pend_to p;
          amount = pend_amount p;
          accs0 = mockAccounts s;
          accs1 = accs0[i := (accs0 ! i)\<lparr>balance :=
                    parseFloat (toFixed2 (fl (balance (accs0 ! i) - amount)))\<rparr>];
          accs2 = accs1[j := (accs1 ! j)\<lparr>balance :=
                    parseFloat (toFixed2 (fl (balance (accs1 ! j) + amount)))\<rparr>];
          fromAccount = accs2 ! i;
          toAccount = accs2 ! j;
          txId = ''tx-'' @ show_int txNow;
          debit = \<lparr>tx_id = txId @ ''-debit'', tx_date = txDate, tx_type = Debit,
                   tx_amount = amount,
                   tx_description = ''Transfer to '' @ acc_name toAccount,
                   tx_status = Completed, tx_category = ''Transfer''\<rparr>;
          credit = \<lparr>tx_id = txId @ ''-credit'', tx_date = txDate, tx_type = Credit,
                    tx_amount = amount,
                    tx_description = ''Transfer from '' @ acc_name fromAccount,
                    tx_status = Completed, tx_category = ''Transfer''\<rparr>;
          log1 = debit # mockTransactions s;
          log2 = credit # log1
      in (\<lparr>success = True, msg_amount = amount,
           msg_from = acc_name fromAccount, msg_to = acc_name toAccount\<rparr>,
          s\<lparr>mockAccounts := accs2, mockTransactions := log2\<rparr>))"

text \<open>
  A call of \<open>transferFunds\<close> during whose \<open>await\<close> no other code of the service
  runs. It reads the clock three times: in \<open>checkRateLimit\<close> (\<open>now\<close>) and
  twice after the \<open>await\<close>.
\<close>

definition transferFunds ::
  "int \<Rightarrow> int \<Rightarrow> int \<Rightarrow> string \<Rightarrow> string \<Rightarrow> rat \<Rightarrow> api_state
     \<Rightarrow> (error + transfer_result) \<times> api_state" where
  "transferFunds now txDate txNow fromAccountId toAccountId amount s =
     (case transferFunds_begin now fromAccountId toAccountId amount s of
        (Inl e, s1) \<Rightarrow> (Inl e, s1)
      | (Inr p, s1) \<Rightarrow>
          (case transferFunds_resume txDate txNow p s1 of (r, s2) \<Rightarrow> (Inr r, s2)))"

text \<open>
  The two assignments of \<open>transferFunds\<close> on their own, for the statements
  below.
\<close>

definition debited :: "account list \<Rightarrow> nat \<Rightarrow> rat \<Rightarrow> account list" where
  "debited accs i amount =
     accs[i := (accs ! i)\<lparr>balance := parseFloat (toFixed2 (fl (balance (accs ! i) - amount)))\<rparr>]"

definition credited :: "account list \<Rightarrow> nat \<Rightarrow> rat \<Rightarrow> account list" where
  "credited accs j amount =
     accs[j := (accs ! j)\<lparr>balance := parseFloat (toFixed2 (fl (balance (accs ! j) + amount)))\<rparr>]"

text \<open>
  The module-level helper \<open>generateInvoice\<close>. Its three calls of
  \<open>Math.random()\<close> are the arguments \<open>r1\<close>, \<open>r2\<close>, \<open>r3\<close>;
  \<open>currentDate\<close> is the reading of \<open>new Date()\<close> and \<open>nowId\<close> the one of
  \<open>Date.now()\<close> in the id. The total is the sum \<open>reduce\<close> computes, from the
  left and starting at 0. Neither \<open>startDate\<close> nor \<open>endDate\<close> is read.
\<close>

definition generateInvoice ::
  "(int \<Rightarrow> int \<Rightarrow> int) \<Rightarrow> rat \<Rightarrow> rat \<Rightarrow> rat \<Rightarrow> int \<Rightarrow> int \<Rightarrow> string \<Rightarrow> string
     \<Rightarrow> invoice_data" where
  "generateInvoice addDays r1 r2 r3 currentDate nowId startDate endDate =
     (let items0 =
            [\<lparr>item_description = ''API Calls - Basic Tier'', quantity = \<lfloor>fl (r1 * 500)\<rfloor> + 100,
              unitPrice = fl (1 / 100), item_amount = 0\<rparr>,
             \<lparr>item_description = ''Premium Features Access'', quantity = 1,
              unitPrice = fl (2999 / 100), item_amount = fl (2999 / 100)\<rparr>,
             \<lparr>item_description = ''Data Storage (GB)'', quantity = \<lfloor>fl (r2 * 20)\<rfloor> + 5,
              unitPrice = 1 / 2, item_amount = 0\<rparr>,
             \<lparr>item_description = ''Support Requests'', quantity = \<lfloor>fl (r3 * 5)\<rfloor>,
              unitPrice = 15, item_amount = 0\<rparr>];
          items1 = map (\<lambda>item. item\<lparr>item_amount :=
                          parseFloat (toFixed2 (fl (of_int (quantity item) * unitPrice item)))\<rparr>) items0;
          total = foldl (\<lambda>sum item. fl (sum + item_amount item)) 0 items1;
          due = addDays currentDate 15
      in \<lparr>inv_id = ''inv-'' @ show_int nowId, inv_date = currentDate, dueDate = due,
          items = items1, inv_total = total, inv_status = InvPending\<rparr>)"

text \<open>The method \<open>ApiService.generateInvoice\<close>.\<close>

definition ApiService_generateInvoice ::
  "int \<Rightarrow> (int \<Rightarrow> int \<Rightarrow> int) \<Rightarrow> rat \<Rightarrow> rat \<Rightarrow> rat \<Rightarrow> int \<Rightarrow> int \<Rightarrow> string \<Rightarrow> string
     \<Rightarrow> api_state \<Rightarrow> (error + invoice_data) \<times> api_state" where
  "ApiService_generateInvoice now addDays r1 r2 r3 currentDate nowId startDate endDate s =
     (case checkRateLimit now s of
        (False, s1) \<Rightarrow> (Inl RateLimited, s1)
      | (True, s1) \<Rightarrow>
          (Inr (generateInvoice addDays r1 r2 r3 currentDate nowId startDate endDate), s1))"

subsection \<open>Sequences of calls\<close>

text \<open>
  The limiter under a sequence of calls made at the given clock readings: the answers of
  \<open>checkRateLimit\<close>, in order.
\<close>

fun checkRateLimits :: "api_state \<Rightarrow> int list \<Rightarrow> bool list" where
  "checkRateLimits s [] = []"
| "checkRateLimits s (now # nows) =
     fst (checkRateLimit now s) # checkRateLimits (snd (checkRateLimit now s)) nows"

text \<open>
  Clock readings of which each is less than 60 seconds after the one before it.
\<close>

fun spaced :: "int list \<Rightarrow> bool" where
  "spaced (a # b # ts) = (b - a < 60000 \<and> spaced (b # ts))"
| "spaced ts = True"

text \<open>
  The limiter in the words of the specification (its section 4.1 and the
  \<open>RateWindow\<close> of its data model), for comparison with \<open>checkRateLimit\<close>:
  a counter and the time the window started; a call after more than 60 seconds since the
  window started sets the counter to 0 and starts a new window, then every call is
  counted, and it is admitted unless the counter exceeds 10.
\<close>

record rate_window =
  window_requestCount :: nat
  windowStartTime :: int

definition spec_admit :: "int \<Rightarrow> rate_window \<Rightarrow> bool \<times> rate_window" where
  "spec_admit now w =
     (let w1 = (if now - windowStartTime w > 60000
                then \<lparr>window_requestCount = 0, windowStartTime = now\<rparr>
                else w);
          w2 = w1\<lparr>window_requestCount := window_requestCount w1 + 1\<rparr>
      in (\<not> window_requestCount w2 > 10, w2))"

fun spec_admits :: "rate_window \<Rightarrow> int list \<Rightarrow> bool list" where
  "spec_admits w [] = []"
| "spec_admits w (now # nows) = fst (spec_admit now w) # spec_admits (snd (spec_admit now w)) nows"

text \<open>
  One call of \<open>transferFunds\<close>: its arguments, the clock reading of its limiter and
  the two clock readings it makes after its \<open>await\<close>.
\<close>

record transfer_call =
  call_now :: int
  call_txDate :: int
  call_txNow :: int
  call_from :: string
  call_to :: string
  call_amount :: rat

text \<open>
  Calls that overlap. What happens in the service is a sequence of events of two kinds:
  a caller calls \<open>transferFunds\<close>, which runs up to its \<open>await\<close> and, if it has
  not thrown, waits there; or the timer of the call that has waited longest fires and
  that call runs to its end (every timer is set to the same 1000 milliseconds, so they
  fire in the order they were set). The state of the run is the state of the service and
  the queue of the calls that wait, oldest first.
\<close>

datatype event = Call transfer_call | TimerFires

type_synonym run_state = "api_state \<times> (transfer_call \<times> pending_transfer) list"

fun runEvent :: "run_state \<Rightarrow> event \<Rightarrow> run_state" where
  "runEvent (s, waiting) (Call c) =
     (case transferFunds_begin (call_now c) (call_from c) (call_to c) (call_amount c) s of
        (Inl e, s1) \<Rightarrow> (s1, waiting)
      | (Inr p, s1) \<Rightarrow> (s1, waiting @ [(c, p)]))"
| "runEvent (s, []) TimerFires = (s, [])"
| "runEvent (s, (c, p) # waiting) TimerFires =
     (snd (transferFunds_resume (call_txDate c) (call_txNow c) p s), waiting)"

definition runEvents :: "run_state \<Rightarrow> event list \<Rightarrow> run_state" where
  "runEvents = foldl runEvent"

text \<open>
  Calls that do not overlap: each one has come to its end, by throwing or after its
  timer has fired, before the next one is made. This is how the transfer form calls the
  service, which disables its controls while a transfer is under way.
\<close>

definition serial :: "transfer_call list \<Rightarrow> event list" where
  "serial cs = concat (map (\<lambda>c. [Call c, TimerFires]) cs)"

text \<open>
  The sum of the balances as a left-to-right sum of binary64 numbers.
\<close>

definition totalBalance :: "api_state \<Rightarrow> rat" where
  "totalBalance s = foldl (\<lambda>sum b. fl (sum + b)) 0 (map balance (mockAccounts s))"

text \<open>
  Amounts of whole cents. \<open>cents k\<close> is the binary64 number that the decimal
  \<open>k / 100\<close> denotes, \<open>centsOf x\<close> the whole number of cents nearest to
  \<open>x\<close>, and a number is of whole cents within \<open>m\<close> when it is \<open>cents k\<close>
  for a \<open>k\<close> of magnitude at most \<open>m\<close>. One thousand million units of the
  currency are \<open>10^11\<close> cents.
\<close>

definition cents :: "int \<Rightarrow> rat" where
  "cents k = fl (of_int k / 100)"

definition centsOf :: "rat \<Rightarrow> int" where
  "centsOf x = \<lfloor>x * 100 + 1 / 2\<rfloor>"

definition centsWithin :: "int \<Rightarrow> rat \<Rightarrow> bool" where
  "centsWithin m x \<longleftrightarrow> \<bar>centsOf x\<bar> \<le> m \<and> x = cents (centsOf x)"

definition wholeCents :: "rat \<Rightarrow> bool" where
  "wholeCents x = centsWithin (10 ^ 11) x"

definition totalCents :: "api_state \<Rightarrow> int" where
  "totalCents s = sum_list (map (\<lambda>acc. centsOf (balance acc)) (mockAccounts s))"

text \<open>A log in the order the service keeps it: no record is older than one after it.\<close>

definition newestFirst :: "transaction list \<Rightarrow> bool" where
  "newestFirst txs = sorted_wrt (\<lambda>a b. tx_date b \<le> tx_date a) txs"

text \<open>
  A log of three records, newest first, of the shape \<open>generateTransactions\<close> gives,
  and three passes of its loop.
\<close>

definition sampleLog :: "transaction list" where
  "sampleLog =
     [\<lparr>tx_id = ''tx-3'', tx_date = 1699990000000, tx_type = Debit, tx_amount = fl (1235 / 100),
       tx_description = ''Online purchase'', tx_status = Completed, tx_category = ''Shopping''\<rparr>,
      \<lparr>tx_id = ''tx-1'', tx_date = 1699900000000, tx_type = Credit, tx_amount = 250,
       tx_description = ''Direct deposit'', tx_status = Completed, tx_category = ''Travel''\<rparr>,
      \<lparr>tx_id = ''tx-2'', tx_date = 1699800000000, tx_type = Debit, tx_amount = fl (4099 / 100),
       tx_description = ''Bill payment'', tx_status = Pending, tx_category = ''Utilities''\<rparr>]"

definition sampleDraws :: "tx_draw list" where
  "sampleDraws =
     [\<lparr>draw_now = 1700000000000, draw_days = 1 / 2, draw_type = 3 / 4, draw_amount = 1 / 4,
       draw_category = 1 / 8, draw_description = 1 / 2, draw_status = 1 / 4\<rparr>,
      \<lparr>draw_now = 1700000000001, draw_days = 1 / 8, draw_type = 1 / 4, draw_amount = 1 / 2,
       draw_category = 7 / 8, draw_description = 5 / 8, draw_status = 15 / 16\<rparr>,
      \<lparr>draw_now = 1700000000002, draw_days = 1 / 2, draw_type = 5 / 8, draw_amount = 3 / 4,
       draw_category = 0, draw_description = 0, draw_status = 0\<rparr>]"

section \<open>The auth context (contexts/AuthContext)\<close>

text \<open>
  A user at run time is a plain object whose properties are strings and booleans: a list
  of keys with their values, in insertion order. \<open>localStorage\<close> is a map from keys
  to strings. The navigation and the toasts of the provider are not modelled.
\<close>

datatype jsval = JStr string | JBool bool

type_synonym jsobject = "(string \<times> jsval) list"

datatype auth_error = InvalidCredentials | EmailAlreadyRegistered | SyntaxError

record auth_state =
  user :: "jsobject option"
  loading :: bool
  localStorage :: "string \<rightharpoonup> string"

subsection \<open>Objects\<close>

text \<open>Writing a property: an existing key keeps its place, a new one goes last.\<close>

fun obj_set :: "string \<Rightarrow> jsval \<Rightarrow> jsobject \<Rightarrow> jsobject" where
  "obj_set k v [] = [(k, v)]"
| "obj_set k v ((k', v') # kvs) = (if k' = k then (k, v) # kvs else (k', v') # obj_set k v kvs)"

text \<open>
  An object literal \<open>{k1: u.k1, k2: u.k2, ...}\<close>; a property that is
  \<open>undefined\<close> is left out, as \<open>JSON.stringify\<close> does with it.
\<close>

definition pick :: "string list \<Rightarrow> jsobject \<Rightarrow> jsobject" where
  "pick ks u = concat (map (\<lambda>k. case map_of u k of None \<Rightarrow> [] | Some v \<Rightarrow> [(k, v)]) ks)"

text \<open>A value is truthy unless it is \<open>null\<close> or the empty string.\<close>

fun truthy :: "string option \<Rightarrow> bool" where
  "truthy None = False"
| "truthy (Some str) = (str \<noteq> [])"

subsection \<open>\<open>JSON.stringify\<close>, \<open>JSON.parse\<close> and \<open>btoa\<close>\<close>

text \<open>
  The three platform functions, on the values the provider hands them. Characters are
  bytes. \<open>JSON_parse\<close> reads one object whose values are strings, \<open>true\<close> or
  \<open>false\<close>, with the white space and the escapes of JSON; any other text is
  \<open>None\<close>, the model of the \<open>SyntaxError\<close>.
\<close>

definition dquote :: char where
  "dquote = CHR 0x22"

definition bslash :: char where
  "bslash = CHR 0x5C"

definition hex_char :: "nat \<Rightarrow> char" where
  "hex_char d = ''0123456789abcdef'' ! d"

definition quote_char :: "char \<Rightarrow> string" where
  "quote_char c =
     (if c = dquote then [bslash, dquote]
      else if c = bslash then [bslash, bslash]
      else if c = CHR 0x08 then [bslash, CHR ''b'']
      else if c = CHR 0x0C then [bslash, CHR ''f'']
      else if c = CHR 0x0A then [bslash, CHR ''n'']
      else if c = CHR 0x0D then [bslash, CHR ''r'']
      else if c = CHR 0x09 then [bslash, CHR ''t'']
      else if (of_char c :: nat) < 32
        then [bslash, CHR ''u'', CHR ''0'', CHR ''0'',
              hex_char (of_char c div 16), hex_char (of_char c mod 16)]
      else [c])"

definition JSON_quote :: "string \<Rightarrow> string" where
  "JSON_quote str = dquote # concat (map quote_char str) @ [dquote]"

fun stringify_val :: "jsval \<Rightarrow> string" where
  "stringify_val (JStr str) = JSON_quote str"
| "stringify_val (JBool b) = (if b then ''true'' else ''false'')"

fun stringify_members :: "jsobject \<Rightarrow> string" where
  "stringify_members [] = []"
| "stringify_members [(k, v)] = JSON_quote k @ '':'' @ stringify_val v"
| "stringify_members ((k, v) # kvs) =
     JSON_quote k @ '':'' @ stringify_val v @ '','' @ stringify_members kvs"

definition JSON_stringify :: "jsobject \<Rightarrow> string" where
  "JSON_stringify obj = ''{'' @ stringify_members obj @ ''}''"

definition is_ws :: "char \<Rightarrow> bool" where
  "is_ws c \<longleftrightarrow> c = CHR '' '' \<or> c = CHR 0x09 \<or> c = CHR 0x0A \<or> c = CHR 0x0D"

definition skip_ws :: "string \<Rightarrow> string" where
  "skip_ws str = dropWhile is_ws str"

definition hex_val :: "char \<Rightarrow> nat option" where
  "hex_val c =
     (let n = (of_char c :: nat)
      in if 48 \<le> n \<and> n \<le> 57 then Some (n - 48)
         else if 97 \<le> n \<and> n \<le> 102 then Some (n - 87)
         else if 65 \<le> n \<and> n \<le> 70 then Some (n - 55)
         else None)"

definition unescape :: "char \<Rightarrow> char option" where
  "unescape e =
     (if e = dquote then Some dquote
      else if e = bslash then Some bslash
      else if e = CHR ''/'' then Some (CHR ''/'')
      else if e = CHR ''b'' then Some (CHR 0x08)
      else if e = CHR ''f'' then Some (CHR 0x0C)
      else if e = CHR ''n'' then Some (CHR 0x0A)
      else if e = CHR ''r'' then Some (CHR 0x0D)
      else if e = CHR ''t'' then Some (CHR 0x09)
      else None)"

text \<open>
  The characters of a string literal after its opening quote, up to the closing one;
  the result is the string and the rest of the input. An escape \<open>\uXXXX\<close> is read
  when it names a byte.
\<close>

definition hex4 :: "char \<Rightarrow> char \<Rightarrow> char \<Rightarrow> char \<Rightarrow> char option" where
  "hex4 h1 h2 h3 h4 =
     (case (hex_val h1, hex_val h2, hex_val h3, hex_val h4) of
        (Some a, Some b, Some c, Some d) \<Rightarrow>
          (if a = 0 \<and> b = 0 then Some (char_of (c * 16 + d)) else None)
      | _ \<Rightarrow> None)"

fun parse_string :: "string \<Rightarrow> string \<Rightarrow> (string \<times> string) option" where
  "parse_string acc [] = None"
| "parse_string acc (c # cs) =
     (if c = dquote then Some (rev acc, cs)
      else if c = bslash then
        (case cs of
           [] \<Rightarrow> None
         | e # cs1 \<Rightarrow>
             (if e = CHR ''u'' then
                (case cs1 of
                   h1 # h2 # h3 # h4 # cs2 \<Rightarrow>
                     (case hex4 h1 h2 h3 h4 of
                        None \<Rightarrow> None
                      | Some ch \<Rightarrow> parse_string (ch # acc) cs2)
                 | _ \<Rightarrow> None)
              else
                (case unescape e of
                   None \<Rightarrow> None
                 | Some ch \<Rightarrow> parse_string (ch # acc) cs1)))
      else if (of_char c :: nat) < 32 then None
      else parse_string (c # acc) cs)"

definition parse_value :: "string \<Rightarrow> (jsval \<times> string) option" where
  "parse_value str =
     (case str of
        [] \<Rightarrow> None
      | c # cs \<Rightarrow>
          (if c = dquote then
             (case parse_string [] cs of
                None \<Rightarrow> None
              | Some (v, rest) \<Rightarrow> Some (JStr v, rest))
           else if take 4 str = ''true'' then Some (JBool True, drop 4 str)
           else if take 5 str = ''false'' then Some (JBool False, drop 5 str)
           else None))"

text \<open>
  Each of the three readers leaves less input than it was given (none more, for
  \<open>skip_ws\<close>); the loop over the members of an object ends for that reason.
\<close>

lemma skip_ws_length: "length (skip_ws str) \<le> length str"
  unfolding skip_ws_def by (rule length_dropWhile_le)

lemma parse_string_length:
  "parse_string acc str = Some (v, rest) \<Longrightarrow> length rest < length str"
proof (induction acc str arbitrary: v rest rule: parse_string.induct)
  case (1 acc)
  then show ?case by simp
next
  case (2 acc c cs)
  show ?case
  proof (cases "c = dquote")
    case True
    with "2.prems" show ?thesis by simp
  next
    case nq: False
    show ?thesis
    proof (cases "c = bslash")
      case nb: False
      with nq "2.prems" have lt: "\<not> (of_char c :: nat) < 32"
        and p: "parse_string (c # acc) cs = Some (v, rest)"
        by (simp_all split: if_splits)
      from "2.IH"(3) [OF nq nb lt p] show ?thesis by simp
    next
      case b: True
      from nq b "2.prems" obtain e cs1 where cs: "cs = e # cs1"
        by (cases cs) simp_all
      show ?thesis
      proof (cases "e = CHR ''u''")
        case nu: False
        with nq b cs "2.prems" obtain ch where u: "unescape e = Some ch"
          and p: "parse_string (ch # acc) cs1 = Some (v, rest)"
          by (auto split: option.splits)
        from "2.IH"(2) [OF nq b cs nu u p] cs show ?thesis by simp
      next
        case u: True
        with nq b cs "2.prems" obtain h1 h2 h3 h4 cs2 ch
          where cs1: "cs1 = h1 # h2 # h3 # h4 # cs2"
            and h: "hex4 h1 h2 h3 h4 = Some ch"
            and p: "parse_string (ch # acc) cs2 = Some (v, rest)"
          by (auto split: list.splits option.splits)
        from "2.IH"(1) [OF nq b cs u cs1 refl refl refl h p] cs cs1 show ?thesis by simp
      qed
    qed
  qed
qed

lemma parse_value_length:
  "parse_value str = Some (v, rest) \<Longrightarrow> length rest < length str"
  by (auto simp: parse_value_def split: list.splits if_splits option.splits
           dest: parse_string_length)

text \<open>
  The members of an object, from the first key to the closing brace. A key that occurs
  twice keeps its first place and its last value.
\<close>

function parse_members :: "jsobject \<Rightarrow> string \<Rightarrow> (jsobject \<times> string) option" where
  "parse_members obj str =
     (case str of
        [] \<Rightarrow> None
      | c # cs \<Rightarrow>
          (if c \<noteq> dquote then None
           else
             (case parse_string [] cs of
                None \<Rightarrow> None
              | Some (key, s1) \<Rightarrow>
                  (case skip_ws s1 of
                     [] \<Rightarrow> None
                   | c1 # s2 \<Rightarrow>
                       (if c1 \<noteq> CHR '':'' then None
                        else
                          (case parse_value (skip_ws s2) of
                             None \<Rightarrow> None
                           | Some (v, s3) \<Rightarrow>
                               (case skip_ws s3 of
                                  [] \<Rightarrow> None
                                | c3 # s4 \<Rightarrow>
                                    (if c3 = CHR '','' then
                                       parse_members (obj_set key v obj) (skip_ws s4)
                                     else if c3 = CHR ''}'' then Some (obj_set key v obj, s4)
                                     else None))))))))"
  by pat_completeness auto
termination
proof (relation "measure (\<lambda>(obj, str). length str)", goal_cases)
  case 1
  show ?case by simp
next
  case (2 obj str c cs x2 key s1 c1 s2 x2a v s3 c3 s4)
  have "parse_string [] cs = Some (key, s1)" using 2(3) 2(4) by simp
  then have a: "length s1 < length cs" by (rule parse_string_length)
  have b: "length s2 < length s1" using skip_ws_length [of s1] 2(5) by simp
  have "parse_value (skip_ws s2) = Some (v, s3)" using 2(7) 2(8) by simp
  then have "length s3 < length (skip_ws s2)" by (rule parse_value_length)
  then have c: "length s3 < length s2" using skip_ws_length [of s2] by simp
  have d: "length s4 < length s3" using skip_ws_length [of s3] 2(9) by simp
  have "length (skip_ws s4) < length (c # cs)"
    using a b c d skip_ws_length [of s4] by simp
  then show ?case using 2(1) by simp
qed

declare parse_members.simps [simp del]

definition JSON_parse :: "string \<Rightarrow> jsobject option" where
  "JSON_parse str =
     (case skip_ws str of
        [] \<Rightarrow> None
      | c # cs \<Rightarrow>
          (if c \<noteq> CHR ''{'' then None
           else
             (case skip_ws cs of
                [] \<Rightarrow> None
              | d # ds \<Rightarrow>
                  (if d = CHR ''}'' then (if skip_ws ds = [] then Some [] else None)
                   else
                     (case parse_members [] (d # ds) of
                        None \<Rightarrow> None
                      | Some (obj, rest) \<Rightarrow> (if skip_ws rest = [] then Some obj else None))))))"

text \<open>\<open>btoa\<close>: base64 of a string of bytes, three bytes to four characters.\<close>

definition b64 :: "nat \<Rightarrow> char" where
  "b64 n = ''ABCDEFGHIJKLMNOPQRSTUVWXYZabcdefghijklmnopqrstuvwxyz0123456789+/'' ! n"

fun btoa :: "string \<Rightarrow> string" where
  "btoa [] = []"
| "btoa [a] =
     (let n = (of_char a :: nat) * 65536
      in [b64 (n div 262144), b64 (n div 4096 mod 64), CHR ''='', CHR ''=''])"
| "btoa [a, b] =
     (let n = (of_char a :: nat) * 65536 + of_char b * 256
      in [b64 (n div 262144), b64 (n div 4096 mod 64), b64 (n div 64 mod 64), CHR ''=''])"
| "btoa (a # b # c # rest) =
     (let n = (of_char a :: nat) * 65536 + of_char b * 256 + of_char c
      in [b64 (n div 262144), b64 (n div 4096 mod 64), b64 (n div 64 mod 64), b64 (n mod 64)]
         @ btoa rest)"

subsection \<open>The provider\<close>

definition MOCK_USERS :: "jsobject list" where
  "MOCK_USERS =
     [[(''id'', JStr ''user-1''), (''email'', JStr ''demo@example.com''),
       (''name'', JStr ''Demo User''), (''password'', JStr ''password''),
       (''role'', JStr ''user''), (''isSubscribed'', JBool False)],
      [(''id'', JStr ''admin-1''), (''email'', JStr ''admin@example.com''),
       (''name'', JStr ''Admin User''), (''password'', JStr ''password''),
       (''role'', JStr ''admin''), (''isSubscribed'', JBool True),
       (''subscriptionTier'', JStr ''enterprise''),
       (''subscriptionExpiresAt'', JStr ''2025-12-31T23:59:59Z'')]]"

text \<open>
  \<open>login\<close> catches its own error and reports it in a toast; the left injection is
  that report. In both cases \<open>finally\<close> clears \<open>loading\<close>.
\<close>

definition login :: "string \<Rightarrow> string \<Rightarrow> auth_state \<Rightarrow> (auth_error + unit) \<times> auth_state" where
  "login email password s =
     (case find (\<lambda>u. map_of u ''email'' = Some (JStr email)
                      \<and> map_of u ''password'' = Some (JStr password)) MOCK_USERS of
        None \<Rightarrow> (Inl InvalidCredentials, s\<lparr>loading := False\<rparr>)
      | Some foundUser \<Rightarrow>
          (let userWithoutPassword = filter (\<lambda>(k, v). k \<noteq> ''password'') foundUser;
               mockToken = btoa (JSON_stringify (pick [''id'', ''email'', ''role''] foundUser));
               store1 = (localStorage s)(''fintech_token'' \<mapsto> mockToken);
               store2 = store1(''fintech_user'' \<mapsto> JSON_stringify userWithoutPassword)
           in (Inr (), s\<lparr>user := Some userWithoutPassword, loading := False,
                           localStorage := store2\<rparr>)))"

definition register ::
  "string \<Rightarrow> string \<Rightarrow> string \<Rightarrow> auth_state \<Rightarrow> (auth_error + unit) \<times> auth_state" where
  "register email name password s =
     (if list_ex (\<lambda>u. map_of u ''email'' = Some (JStr email)) MOCK_USERS
      then (Inl EmailAlreadyRegistered, s\<lparr>loading := False\<rparr>)
      else (Inr (), s\<lparr>loading := False\<rparr>))"

definition logout :: "auth_state \<Rightarrow> auth_state" where
  "logout s =
     s\<lparr>user := None,
       localStorage := (localStorage s)(''fintech_token'' := None, ''fintech_user'' := None)\<rparr>"

definition checkToken :: "auth_state \<Rightarrow> bool" where
  "checkToken s = truthy (localStorage s ''fintech_token'')"

text \<open>
  \<open>updateSubscription\<close>; \<open>expiresAt\<close> is the ISO string of the clock reading
  plus thirty days.
\<close>

definition updateSubscription :: "string \<Rightarrow> string \<Rightarrow> auth_state \<Rightarrow> auth_state" where
  "updateSubscription tier expiresAt s =
     (case user s of
        None \<Rightarrow> s
      | Some u \<Rightarrow>
          (let updatedUser =
                 obj_set ''subscriptionExpiresAt'' (JStr expiresAt)
                   (obj_set ''subscriptionTier'' (JStr tier)
                      (obj_set ''isSubscribed'' (JBool True) u))
           in s\<lparr>user := Some updatedUser,
                localStorage := (localStorage s)(''fintech_user'' \<mapsto> JSON_stringify updatedUser)\<rparr>))"

text \<open>
  The effect that runs once when the provider mounts, and the provider of a fresh
  process over a given store: no user, \<open>loading\<close> set.
\<close>

definition checkAuth :: "auth_state \<Rightarrow> auth_error + auth_state" where
  "checkAuth s =
     (if truthy (localStorage s ''fintech_token'') then
        (case localStorage s ''fintech_user'' of
           None \<Rightarrow> Inr (s\<lparr>loading := False\<rparr>)
         | Some storedUser \<Rightarrow>
             (if storedUser = [] then Inr (s\<lparr>loading := False\<rparr>)
              else
                (case JSON_parse storedUser of
                   None \<Rightarrow> Inl SyntaxError
                 | Some u \<Rightarrow> Inr (s\<lparr>user := Some u, loading := False\<rparr>))))
      else Inr (s\<lparr>loading := False\<rparr>))"

definition AuthProvider :: "(string \<rightharpoonup> string) \<Rightarrow> auth_error + auth_state" where
  "AuthProvider store = checkAuth \<lparr>user = None, loading = True, localStorage = store\<rparr>"

text \<open>The two users of \<open>MOCK_USERS\<close> without their password, as \<open>login\<close> stores them.\<close>

definition demoUser :: jsobject where
  "demoUser =
     [(''id'', JStr ''user-1''), (''email'', JStr ''demo@example.com''),
      (''name'', JStr ''Demo User''), (''role'', JStr ''user''), (''isSubscribed'', JBool False)]"

definition adminUser :: jsobject where
  "adminUser =
     [(''id'', JStr ''admin-1''), (''email'', JStr ''admin@example.com''),
      (''name'', JStr ''Admin User''), (''role'', JStr ''admin''), (''isSubscribed'', JBool True),
      (''subscriptionTier'', JStr ''enterprise''),
      (''subscriptionExpiresAt'', JStr ''2025-12-31T23:59:59Z'')]"

section \<open>Auxiliary facts\<close>

subsection \<open>Arithmetic of the platform\<close>

lemma floor_numeral_div_rat [simp]:
  "\<lfloor>(numeral a / numeral b :: rat)\<rfloor> = numeral a div numeral b"
  using floor_divide_of_int_eq [of "numeral a" "numeral b", where ?'a = rat] by simp

lemma floor_neg_numeral_div_rat [simp]:
  "\<lfloor>(- (numeral a / numeral b) :: rat)\<rfloor> = - numeral a div numeral b"
  using floor_divide_of_int_eq [of "- numeral a" "numeral b", where ?'a = rat] by simp

lemma floor_one_div_numeral_rat [simp]:
  "\<lfloor>(1 / numeral b :: rat)\<rfloor> = 1 div numeral b"
  using floor_divide_of_int_eq [of 1 "numeral b", where ?'a = rat] by simp

lemma roundEven_err: "\<bar>of_int (roundEven m) - m\<bar> \<le> 1 / 2"
proof -
  have "of_int \<lfloor>m\<rfloor> \<le> m" "m < of_int \<lfloor>m\<rfloor> + 1"
    by linarith+
  then show ?thesis
    by (auto simp: roundEven_def Let_def abs_le_iff)
qed

lemma roundEven_nonneg: "0 \<le> m \<Longrightarrow> 0 \<le> roundEven m"
  by (auto simp: roundEven_def Let_def)

lemma fl_0 [simp]: "fl 0 = 0"
  by (simp add: fl_def)

lemma fl_nonneg: "0 \<le> x \<Longrightarrow> 0 \<le> fl x"
  by (simp add: fl_def Let_def roundEven_nonneg sgn_if)

text \<open>
  The spacing of the binary64 numbers at a given number, from the power of two below it.
\<close>

lemma floorlog_range:
  assumes "2 ^ k \<le> n" and "n < 2 ^ Suc k"
  shows "floorlog 2 n = Suc k"
proof -
  have "floorlog 2 n \<le> Suc k"
    using assms(2) by (simp add: floorlog_le_iff)
  moreover have "Suc k \<le> floorlog 2 n"
    using assms(1) by (intro floorlog_ge_SucI) simp_all
  ultimately show ?thesis by simp
qed

lemma fl_scaled:
  assumes "2 ^ (q + 52) \<le> \<bar>x\<bar> * 2 ^ tiny" and "\<bar>x\<bar> * 2 ^ tiny < 2 * 2 ^ (q + 52)"
  shows "fl x = sgn x * of_int (roundEven (\<bar>x\<bar> * 2 ^ tiny / 2 ^ q)) * 2 ^ q / 2 ^ tiny"
proof -
  let ?a = "\<bar>x\<bar> * 2 ^ tiny"
  let ?n = "nat \<lfloor>?a\<rfloor>"
  have "(2::int) ^ (q + 52) \<le> \<lfloor>?a\<rfloor>"
    using assms(1) by (simp add: le_floor_iff)
  then have lo: "2 ^ (q + 52) \<le> ?n"
    by (simp add: le_nat_iff)
  have "\<lfloor>?a\<rfloor> < 2 * (2::int) ^ (q + 52)"
    using assms(2) by (simp add: floor_less_iff)
  then have hi: "?n < 2 ^ Suc (q + 52)"
    by (simp add: nat_less_iff power_add)
  have "floorlog 2 ?n = Suc (q + 52)"
    using lo hi by (rule floorlog_range)
  then show ?thesis
    by (simp add: fl_def Let_def)
qed

lemma fl_ge_one:
  assumes "2 ^ e \<le> \<bar>x\<bar>" and "\<bar>x\<bar> < 2 ^ Suc e" and "e \<le> 52"
  shows "fl x = sgn x * of_int (roundEven (\<bar>x\<bar> * 2 ^ (52 - e))) / 2 ^ (52 - e)"
proof -
  have t: "tiny = (1022 + e) + (52 - e)" "1022 + e + 52 = e + tiny"
    using assms(3) by (simp_all add: tiny_def)
  have a: "(2::rat) ^ (1022 + e + 52) \<le> \<bar>x\<bar> * 2 ^ tiny"
    unfolding t(2) power_add using assms(1) by (intro mult_right_mono) simp_all
  have b: "\<bar>x\<bar> * 2 ^ tiny < 2 * (2::rat) ^ (1022 + e + 52)"
  proof -
    have "\<bar>x\<bar> * 2 ^ tiny < 2 ^ Suc e * (2::rat) ^ tiny"
      using assms(2) by (intro mult_strict_right_mono) simp_all
    also have "\<dots> = 2 * 2 ^ (1022 + e + 52)"
      unfolding t(2) power_add by simp
    finally show ?thesis .
  qed
  have s: "(2::rat) ^ tiny = 2 ^ (1022 + e) * 2 ^ (52 - e)"
    by (subst t(1)) (rule power_add)
  show ?thesis
    unfolding fl_scaled [OF a b] s by (simp add: field_simps)
qed

lemma fl_lt_one:
  assumes "1 \<le> \<bar>x\<bar> * 2 ^ k" and "\<bar>x\<bar> * 2 ^ k < 2" and "k \<le> 1022"
  shows "fl x = sgn x * of_int (roundEven (\<bar>x\<bar> * 2 ^ (52 + k))) / 2 ^ (52 + k)"
proof -
  have t: "tiny = k + (1022 - k + 52)" "tiny = (1022 - k) + (52 + k)"
    using assms(3) by (simp_all add: tiny_def)
  have a: "(2::rat) ^ (1022 - k + 52) \<le> \<bar>x\<bar> * 2 ^ tiny"
  proof -
    have "1 * (2::rat) ^ (1022 - k + 52) \<le> (\<bar>x\<bar> * 2 ^ k) * 2 ^ (1022 - k + 52)"
      using assms(1) by (intro mult_right_mono) simp_all
    also have "\<dots> = \<bar>x\<bar> * 2 ^ tiny"
      by (subst t(1)) (simp add: power_add)
    finally show ?thesis by simp
  qed
  have b: "\<bar>x\<bar> * 2 ^ tiny < 2 * (2::rat) ^ (1022 - k + 52)"
  proof -
    have "\<bar>x\<bar> * 2 ^ tiny = (\<bar>x\<bar> * 2 ^ k) * 2 ^ (1022 - k + 52)"
      by (subst t(1)) (simp add: power_add)
    also have "\<dots> < 2 * 2 ^ (1022 - k + 52)"
      using assms(2) by (intro mult_strict_right_mono) simp_all
    finally show ?thesis .
  qed
  have s: "(2::rat) ^ tiny = 2 ^ (1022 - k) * 2 ^ (52 + k)"
    by (subst t(2)) (rule power_add)
  show ?thesis
    unfolding fl_scaled [OF a b] s by (simp add: field_simps)
qed

text \<open>
  The rounding error of a number below \<open>2^32\<close> is at most half the spacing there.
\<close>

lemma fl_abs_err:
  assumes "\<bar>x\<bar> < 2 ^ 32"
  shows "\<bar>fl x - x\<bar> \<le> 1 / 2 ^ 22"
proof -
  define a where "a = \<bar>x\<bar> * 2 ^ tiny"
  define q where "q = floorlog 2 (nat \<lfloor>a\<rfloor>) - 53"
  define n where "n = roundEven (a / 2 ^ q)"
  have fl: "fl x = sgn x * of_int n * 2 ^ q / 2 ^ tiny"
    by (simp add: fl_def Let_def a_def q_def n_def)
  have x: "x = sgn x * (a / 2 ^ q) * 2 ^ q / 2 ^ tiny"
    by (simp add: a_def sgn_mult_abs)
  have "a < 2 ^ 32 * 2 ^ tiny"
    unfolding a_def using assms by (intro mult_strict_right_mono) simp_all
  then have "a < 2 ^ (32 + tiny)"
    by (simp add: power_add)
  then have "\<lfloor>a\<rfloor> < 2 ^ (32 + tiny)"
    by (simp add: floor_less_iff)
  then have "nat \<lfloor>a\<rfloor> < 2 ^ (32 + tiny)"
    by (simp add: nat_less_iff)
  then have "floorlog 2 (nat \<lfloor>a\<rfloor>) \<le> 32 + tiny"
    by (simp add: floorlog_le_iff)
  then have qt: "q + 21 \<le> tiny"
    by (simp add: q_def tiny_def)
  then have "(2::rat) ^ (q + 21) \<le> 2 ^ tiny"
    by (intro power_increasing) simp_all
  then have s: "(2::rat) ^ q / 2 ^ tiny \<le> 1 / 2 ^ 21"
    by (simp add: power_add field_simps)
  have "fl x - x = sgn x * (of_int n - a / 2 ^ q) * (2 ^ q / 2 ^ tiny)"
    by (subst fl, subst (2) x) (simp add: algebra_simps)
  then have "\<bar>fl x - x\<bar> = \<bar>sgn x\<bar> * \<bar>of_int n - a / 2 ^ q\<bar> * (2 ^ q / 2 ^ tiny)"
    by (simp add: abs_mult)
  also have "\<dots> \<le> 1 * (1 / 2) * (1 / 2 ^ 21)"
    using roundEven_err [of "a / 2 ^ q"] s unfolding n_def
    by (intro mult_mono) (simp_all add: abs_sgn_eq)
  finally show ?thesis by simp
qed

text \<open>
  Rules that compute \<open>fl\<close> at a number between \<open>2^-7\<close> and \<open>2^15\<close>.
\<close>

lemmas fl_eval =
  fl_lt_one [where k = 7] fl_lt_one [where k = 6] fl_lt_one [where k = 5]
  fl_lt_one [where k = 4] fl_lt_one [where k = 3] fl_lt_one [where k = 2]
  fl_lt_one [where k = 1]
  fl_ge_one [where e = 0] fl_ge_one [where e = 1] fl_ge_one [where e = 2]
  fl_ge_one [where e = 3] fl_ge_one [where e = 4] fl_ge_one [where e = 5]
  fl_ge_one [where e = 6] fl_ge_one [where e = 7] fl_ge_one [where e = 8]
  fl_ge_one [where e = 9] fl_ge_one [where e = 10] fl_ge_one [where e = 11]
  fl_ge_one [where e = 12] fl_ge_one [where e = 13] fl_ge_one [where e = 14]
  roundEven_def parseFloat_def

lemma toFixed2_nonneg: "0 \<le> x \<Longrightarrow> 0 \<le> toFixed2 x"
  by (simp add: toFixed2_def)

lemma rounded_nonneg: "0 \<le> x \<Longrightarrow> 0 \<le> parseFloat (toFixed2 (fl x))"
  by (simp add: parseFloat_def fl_nonneg toFixed2_nonneg)

text \<open>
  \<open>toFixed(2)\<close> of a number less than half a cent away from a whole number of cents
  gives that number of cents.
\<close>

lemma centsOf_near:
  assumes "\<bar>y - of_int k / 100\<bar> < 1 / 200"
  shows "centsOf y = k"
proof -
  have "of_int k \<le> y * 100 + 1 / 2" "y * 100 + 1 / 2 < of_int k + 1"
    using assms by linarith+
  then show ?thesis
    unfolding centsOf_def by (rule floor_unique)
qed

lemma toFixed2_near:
  assumes "\<bar>y - of_int k / 100\<bar> < 1 / 200" and "\<bar>y\<bar> < 10 ^ 21"
  shows "toFixed2 y = of_int k / 100"
proof -
  have "of_int k \<le> y * 100 + 1 / 2" "y * 100 + 1 / 2 < of_int k + 1"
    using assms(1) by linarith+
  then have f1: "\<lfloor>y * 100 + 1 / 2\<rfloor> = k"
    by (rule floor_unique)
  have "of_int (- k) \<le> (- y) * 100 + 1 / 2" "(- y) * 100 + 1 / 2 < of_int (- k) + 1"
    using assms(1) by (simp_all only: of_int_minus)
  then have f2: "\<lfloor>(- y) * 100 + 1 / 2\<rfloor> = - k"
    by (rule floor_unique)
  show ?thesis
    using assms(2) unfolding toFixed2_def f1 f2 by (simp add: abs_less_iff)
qed

lemma cents_err:
  assumes "\<bar>k\<bar> \<le> 3 * 10 ^ 11"
  shows "\<bar>cents k - of_int k / 100\<bar> \<le> 1 / 2 ^ 22"
proof -
  have "(of_int \<bar>k\<bar> :: rat) \<le> of_int (3 * 10 ^ 11)"
    using assms by (simp only: of_int_le_iff)
  then have "\<bar>of_int k / 100 :: rat\<bar> < 2 ^ 32"
    by simp
  then show ?thesis
    unfolding cents_def by (rule fl_abs_err)
qed

lemma centsOf_cents:
  assumes "\<bar>k\<bar> \<le> 3 * 10 ^ 11"
  shows "centsOf (cents k) = k"
proof (rule centsOf_near)
  from cents_err [OF assms] show "\<bar>cents k - of_int k / 100\<bar> < 1 / 200"
    by simp
qed

lemma fl_near_cents:
  assumes "\<bar>d - of_int k / 100\<bar> \<le> 2 / 2 ^ 22" and "\<bar>k\<bar> \<le> 3 * 10 ^ 11"
  shows "parseFloat (toFixed2 (fl d)) = cents k"
proof -
  have "(of_int \<bar>k\<bar> :: rat) \<le> of_int (3 * 10 ^ 11)"
    using assms(2) by (simp only: of_int_le_iff)
  then have k: "\<bar>of_int k / 100 :: rat\<bar> \<le> 3 * 10 ^ 9"
    by simp
  have d: "\<bar>d\<bar> < 2 ^ 32"
    using assms(1) k unfolding abs_le_iff abs_less_iff by simp
  have e: "\<bar>fl d - d\<bar> \<le> 1 / 2 ^ 22"
    using d by (rule fl_abs_err)
  have n: "\<bar>fl d - of_int k / 100\<bar> < 1 / 200"
    using assms(1) e unfolding abs_le_iff abs_less_iff by simp
  have b: "\<bar>fl d\<bar> < 10 ^ 21"
    using n k unfolding abs_le_iff abs_less_iff by simp
  from toFixed2_near [OF n b] show ?thesis
    by (simp only: parseFloat_def cents_def)
qed

lemma sub_cents:
  assumes "centsWithin (10 ^ 11) x" and "centsWithin (10 ^ 11) a"
  shows "parseFloat (toFixed2 (fl (x - a))) = cents (centsOf x - centsOf a)"
proof -
  have x: "x = cents (centsOf x)" "\<bar>centsOf x\<bar> \<le> 10 ^ 11"
    and a: "a = cents (centsOf a)" "\<bar>centsOf a\<bar> \<le> 10 ^ 11"
    using assms by (simp_all add: centsWithin_def)
  have ex: "\<bar>x - of_int (centsOf x) / 100\<bar> \<le> 1 / 2 ^ 22"
    using cents_err [of "centsOf x"] x by simp
  have ea: "\<bar>a - of_int (centsOf a) / 100\<bar> \<le> 1 / 2 ^ 22"
    using cents_err [of "centsOf a"] a by simp
  have "\<bar>(x - a) - of_int (centsOf x - centsOf a) / 100\<bar> \<le> 2 / 2 ^ 22"
    using ex ea by (simp only: of_int_diff diff_divide_distrib)
  moreover have "\<bar>centsOf x - centsOf a\<bar> \<le> 3 * 10 ^ 11"
    using x(2) a(2) by simp
  ultimately show ?thesis
    by (rule fl_near_cents)
qed

lemma add_cents:
  assumes "centsWithin (2 * 10 ^ 11) x" and "centsWithin (10 ^ 11) a"
  shows "parseFloat (toFixed2 (fl (x + a))) = cents (centsOf x + centsOf a)"
proof -
  have x: "x = cents (centsOf x)" "\<bar>centsOf x\<bar> \<le> 2 * 10 ^ 11"
    and a: "a = cents (centsOf a)" "\<bar>centsOf a\<bar> \<le> 10 ^ 11"
    using assms by (simp_all add: centsWithin_def)
  have ex: "\<bar>x - of_int (centsOf x) / 100\<bar> \<le> 1 / 2 ^ 22"
    using cents_err [of "centsOf x"] x by simp
  have ea: "\<bar>a - of_int (centsOf a) / 100\<bar> \<le> 1 / 2 ^ 22"
    using cents_err [of "centsOf a"] a by simp
  have "\<bar>(x + a) - of_int (centsOf x + centsOf a) / 100\<bar> \<le> 2 / 2 ^ 22"
    using ex ea by (simp only: of_int_add add_divide_distrib)
  moreover have "\<bar>centsOf x + centsOf a\<bar> \<le> 3 * 10 ^ 11"
    using x(2) a(2) by simp
  ultimately show ?thesis
    by (rule fl_near_cents)
qed

lemma centsWithin_cents:
  "\<bar>k\<bar> \<le> m \<Longrightarrow> m \<le> 3 * 10 ^ 11 \<Longrightarrow> centsWithin m (cents k)"
  by (simp add: centsWithin_def centsOf_cents)

lemma centsWithin_mono: "centsWithin m x \<Longrightarrow> m \<le> n \<Longrightarrow> centsWithin n x"
  by (simp add: centsWithin_def)

lemma sum_list_update_int:
  "i < length xs \<Longrightarrow> sum_list (xs[i := y]) = sum_list xs - xs ! i + (y :: int)"
  by (induction xs arbitrary: i) (auto split: nat.splits)

subsection \<open>Finding an account\<close>

lemma findIndex_Some:
  "findIndex p xs = Some i \<Longrightarrow> i < length xs \<and> p (xs ! i)"
  by (induction xs arbitrary: i) (auto split: if_splits option.splits)

lemma findIndex_find:
  "find p xs = map_option (\<lambda>i. xs ! i) (findIndex p xs)"
  by (induction xs) (auto split: option.splits)

subsection \<open>The limiter leaves the ledger and the log alone\<close>

lemma checkRateLimit_frame:
  "mockAccounts (snd (checkRateLimit now s)) = mockAccounts s"
  "mockTransactions (snd (checkRateLimit now s)) = mockTransactions s"
  by (simp_all add: checkRateLimit_def Let_def)

text \<open>The outcomes of the code before the await, one lemma per path.\<close>

lemma begin_limited:
  "\<not> fst (checkRateLimit now s) \<Longrightarrow>
   transferFunds_begin now fromId toId amount s = (Inl RateLimited, snd (checkRateLimit now s))"
  by (cases "checkRateLimit now s") (simp add: transferFunds_begin_def)

lemma begin_no_from:
  "fst (checkRateLimit now s) \<Longrightarrow> findIndex (\<lambda>acc. acc_id acc = fromId) (mockAccounts s) = None \<Longrightarrow>
   transferFunds_begin now fromId toId amount s = (Inl NotFound, snd (checkRateLimit now s))"
  using checkRateLimit_frame(1) [of now s]
  by (cases "checkRateLimit now s") (simp add: transferFunds_begin_def)

lemma begin_no_to:
  "fst (checkRateLimit now s) \<Longrightarrow> findIndex (\<lambda>acc. acc_id acc = toId) (mockAccounts s) = None \<Longrightarrow>
   transferFunds_begin now fromId toId amount s = (Inl NotFound, snd (checkRateLimit now s))"
  using checkRateLimit_frame(1) [of now s]
  by (cases "checkRateLimit now s") (simp add: transferFunds_begin_def split: option.splits)

lemma begin_insufficient:
  "fst (checkRateLimit now s) \<Longrightarrow> findIndex (\<lambda>acc. acc_id acc = fromId) (mockAccounts s) = Some i \<Longrightarrow>
   findIndex (\<lambda>acc. acc_id acc = toId) (mockAccounts s) = Some j \<Longrightarrow>
   balance (mockAccounts s ! i) < amount \<Longrightarrow>
   transferFunds_begin now fromId toId amount s = (Inl InsufficientFunds, snd (checkRateLimit now s))"
  using checkRateLimit_frame(1) [of now s]
  by (cases "checkRateLimit now s") (simp add: transferFunds_begin_def)

lemma begin_passed:
  "fst (checkRateLimit now s) \<Longrightarrow> findIndex (\<lambda>acc. acc_id acc = fromId) (mockAccounts s) = Some i \<Longrightarrow>
   findIndex (\<lambda>acc. acc_id acc = toId) (mockAccounts s) = Some j \<Longrightarrow>
   \<not> balance (mockAccounts s ! i) < amount \<Longrightarrow>
   transferFunds_begin now fromId toId amount s
     = (Inr \<lparr>pend_from = i, pend_to = j, pend_amount = amount\<rparr>, snd (checkRateLimit now s))"
  using checkRateLimit_frame(1) [of now s]
  by (cases "checkRateLimit now s") (simp add: transferFunds_begin_def)

lemma begin_cases:
  obtains (failed) e where
      "transferFunds_begin now fromId toId amount s = (Inl e, snd (checkRateLimit now s))"
  | (passed) i j where
      "fst (checkRateLimit now s)"
      "findIndex (\<lambda>acc. acc_id acc = fromId) (mockAccounts s) = Some i"
      "findIndex (\<lambda>acc. acc_id acc = toId) (mockAccounts s) = Some j"
      "\<not> balance (mockAccounts s ! i) < amount"
proof (cases "fst (checkRateLimit now s)")
  case False
  then show ?thesis using begin_limited failed by blast
next
  case adm: True
  show ?thesis
  proof (cases "findIndex (\<lambda>acc. acc_id acc = fromId) (mockAccounts s)")
    case None
    with adm show ?thesis using begin_no_from failed by blast
  next
    case i: (Some i)
    show ?thesis
    proof (cases "findIndex (\<lambda>acc. acc_id acc = toId) (mockAccounts s)")
      case None
      with adm show ?thesis using begin_no_to failed by blast
    next
      case j: (Some j)
      show ?thesis
      proof (cases "balance (mockAccounts s ! i) < amount")
        case True
        with adm i j show ?thesis using begin_insufficient failed by blast
      next
        case False
        with adm i j show ?thesis using passed by blast
      qed
    qed
  qed
qed

text \<open>The code after the await, in terms of the two assignments.\<close>

lemma resume_state:
  assumes "pend_from p < length (mockAccounts s)" and "pend_to p < length (mockAccounts s)"
  shows "transferFunds_resume txDate txNow p s =
    (\<lparr>success = True, msg_amount = pend_amount p,
      msg_from = acc_name (mockAccounts s ! pend_from p),
      msg_to = acc_name (mockAccounts s ! pend_to p)\<rparr>,
     s\<lparr>mockAccounts :=
         credited (debited (mockAccounts s) (pend_from p) (pend_amount p)) (pend_to p) (pend_amount p),
       mockTransactions :=
         \<lparr>tx_id = ''tx-'' @ show_int txNow @ ''-credit'', tx_date = txDate, tx_type = Credit,
           tx_amount = pend_amount p,
           tx_description = ''Transfer from '' @ acc_name (mockAccounts s ! pend_from p),
           tx_status = Completed, tx_category = ''Transfer''\<rparr>
         # \<lparr>tx_id = ''tx-'' @ show_int txNow @ ''-debit'', tx_date = txDate, tx_type = Debit,
             tx_amount = pend_amount p,
             tx_description = ''Transfer to '' @ acc_name (mockAccounts s ! pend_to p),
             tx_status = Completed, tx_category = ''Transfer''\<rparr>
         # mockTransactions s\<rparr>)"
proof -
  let ?i = "pend_from p" and ?j = "pend_to p" and ?a = "pend_amount p"
  have names: "acc_name (credited (debited (mockAccounts s) ?i ?a) ?j ?a ! ?i) = acc_name (mockAccounts s ! ?i)"
     "acc_name (credited (debited (mockAccounts s) ?i ?a) ?j ?a ! ?j) = acc_name (mockAccounts s ! ?j)"
    using assms by (simp_all add: credited_def debited_def nth_list_update)
  show ?thesis
    unfolding transferFunds_resume_def
    apply (simp only: Let_def)
    apply (fold debited_def)
    apply (fold credited_def)
    apply (simp only: names append_assoc)
    done
qed

text \<open>The outcomes of a call with nothing in between, one lemma per path.\<close>

lemma transferFunds_limited:
  "\<not> fst (checkRateLimit now s) \<Longrightarrow>
   transferFunds now txDate txNow fromId toId amount s = (Inl RateLimited, snd (checkRateLimit now s))"
  by (simp add: transferFunds_def begin_limited)

lemma transferFunds_no_from:
  "fst (checkRateLimit now s) \<Longrightarrow> findIndex (\<lambda>acc. acc_id acc = fromId) (mockAccounts s) = None \<Longrightarrow>
   transferFunds now txDate txNow fromId toId amount s = (Inl NotFound, snd (checkRateLimit now s))"
  by (simp add: transferFunds_def begin_no_from)

lemma transferFunds_no_to:
  "fst (checkRateLimit now s) \<Longrightarrow> findIndex (\<lambda>acc. acc_id acc = toId) (mockAccounts s) = None \<Longrightarrow>
   transferFunds now txDate txNow fromId toId amount s = (Inl NotFound, snd (checkRateLimit now s))"
  by (simp add: transferFunds_def begin_no_to)

lemma transferFunds_insufficient:
  "fst (checkRateLimit now s) \<Longrightarrow> findIndex (\<lambda>acc. acc_id acc = fromId) (mockAccounts s) = Some i \<Longrightarrow>
   findIndex (\<lambda>acc. acc_id acc = toId) (mockAccounts s) = Some j \<Longrightarrow>
   balance (mockAccounts s ! i) < amount \<Longrightarrow>
   transferFunds now txDate txNow fromId toId amount s = (Inl InsufficientFunds, snd (checkRateLimit now s))"
  by (simp add: transferFunds_def begin_insufficient)

lemma transferFunds_success:
  assumes "fst (checkRateLimit now s)"
    and "findIndex (\<lambda>acc. acc_id acc = fromId) (mockAccounts s) = Some i"
    and "findIndex (\<lambda>acc. acc_id acc = toId) (mockAccounts s) = Some j"
    and "\<not> balance (mockAccounts s ! i) < amount"
  shows "transferFunds now txDate txNow fromId toId amount s =
    (Inr \<lparr>success = True, msg_amount = amount,
          msg_from = acc_name (mockAccounts s ! i), msg_to = acc_name (mockAccounts s ! j)\<rparr>,
     (snd (checkRateLimit now s))
       \<lparr>mockAccounts := credited (debited (mockAccounts s) i amount) j amount,
        mockTransactions :=
          \<lparr>tx_id = ''tx-'' @ show_int txNow @ ''-credit'', tx_date = txDate, tx_type = Credit,
            tx_amount = amount,
            tx_description = ''Transfer from '' @ acc_name (mockAccounts s ! i),
            tx_status = Completed, tx_category = ''Transfer''\<rparr>
          # \<lparr>tx_id = ''tx-'' @ show_int txNow @ ''-debit'', tx_date = txDate, tx_type = Debit,
              tx_amount = amount,
              tx_description = ''Transfer to '' @ acc_name (mockAccounts s ! j),
              tx_status = Completed, tx_category = ''Transfer''\<rparr>
          # mockTransactions s\<rparr>)"
proof -
  let ?s1 = "snd (checkRateLimit now s)"
  let ?p = "\<lparr>pend_from = i, pend_to = j, pend_amount = amount\<rparr>"
  have ij: "pend_from ?p < length (mockAccounts ?s1)" "pend_to ?p < length (mockAccounts ?s1)"
    using assms(2,3) findIndex_Some by (fastforce simp: checkRateLimit_frame)+
  show ?thesis
    by (simp add: transferFunds_def begin_passed [OF assms] resume_state [OF ij]
          checkRateLimit_frame)
qed

lemma transferFunds_cases:
  obtains (failed) e where
      "transferFunds now txDate txNow fromId toId amount s = (Inl e, snd (checkRateLimit now s))"
  | (moved) i j where
      "fst (checkRateLimit now s)"
      "findIndex (\<lambda>acc. acc_id acc = fromId) (mockAccounts s) = Some i"
      "findIndex (\<lambda>acc. acc_id acc = toId) (mockAccounts s) = Some j"
      "\<not> balance (mockAccounts s ! i) < amount"
proof (cases rule: begin_cases [of now fromId toId amount s])
  case (failed e)
  then have "transferFunds now txDate txNow fromId toId amount s = (Inl e, snd (checkRateLimit now s))"
    by (simp add: transferFunds_def)
  then show ?thesis by (rule that(1))
next
  case (passed i j)
  then show ?thesis by (rule that(2))
qed

subsection \<open>The two assignments\<close>

lemma length_debited [simp]: "length (debited accs i a) = length accs"
  by (simp add: debited_def)

lemma length_credited [simp]: "length (credited accs j a) = length accs"
  by (simp add: credited_def)

lemma set_debited:
  "acc \<in> set (debited accs i a) \<Longrightarrow>
   acc = (accs ! i)\<lparr>balance := parseFloat (toFixed2 (fl (balance (accs ! i) - a)))\<rparr> \<or> acc \<in> set accs"
  unfolding debited_def using set_update_subset_insert by fastforce

lemma set_credited:
  "acc \<in> set (credited accs j a) \<Longrightarrow>
   acc = (accs ! j)\<lparr>balance := parseFloat (toFixed2 (fl (balance (accs ! j) + a)))\<rparr> \<or> acc \<in> set accs"
  unfolding credited_def using set_update_subset_insert by fastforce

text \<open>In whole cents, the two assignments subtract and add the amount.\<close>

lemma cents_debited:
  assumes "\<forall>acc \<in> set accs. wholeCents (balance acc)" and "wholeCents a" and "i < length accs"
  shows "map (\<lambda>acc. centsOf (balance acc)) (debited accs i a)
           = (map (\<lambda>acc. centsOf (balance acc)) accs)[i := centsOf (balance (accs ! i)) - centsOf a]"
    and "\<forall>acc \<in> set (debited accs i a). centsWithin (2 * 10 ^ 11) (balance acc)"
proof -
  have x: "centsWithin (10 ^ 11) (balance (accs ! i))" and a: "centsWithin (10 ^ 11) a"
    using assms by (simp_all add: wholeCents_def)
  have "\<bar>centsOf (balance (accs ! i))\<bar> \<le> 10 ^ 11" "\<bar>centsOf a\<bar> \<le> 10 ^ 11"
    using x a by (simp_all add: centsWithin_def)
  then have k: "\<bar>centsOf (balance (accs ! i)) - centsOf a\<bar> \<le> 2 * 10 ^ 11"
    by simp
  have n: "parseFloat (toFixed2 (fl (balance (accs ! i) - a)))
             = cents (centsOf (balance (accs ! i)) - centsOf a)"
    using x a by (rule sub_cents)
  show "map (\<lambda>acc. centsOf (balance acc)) (debited accs i a)
           = (map (\<lambda>acc. centsOf (balance acc)) accs)[i := centsOf (balance (accs ! i)) - centsOf a]"
    using k by (simp add: debited_def map_update n centsOf_cents)
  show "\<forall>acc \<in> set (debited accs i a). centsWithin (2 * 10 ^ 11) (balance acc)"
  proof
    fix acc assume "acc \<in> set (debited accs i a)"
    then consider "balance acc = cents (centsOf (balance (accs ! i)) - centsOf a)" | "acc \<in> set accs"
      using set_debited [of acc accs i a] n by auto
    then show "centsWithin (2 * 10 ^ 11) (balance acc)"
    proof cases
      case 1
      with k show ?thesis by (simp add: centsWithin_cents)
    next
      case 2
      with assms(1) have "centsWithin (10 ^ 11) (balance acc)" by (simp add: wholeCents_def)
      then show ?thesis by (rule centsWithin_mono) simp
    qed
  qed
qed

lemma cents_credited:
  assumes "\<forall>acc \<in> set accs. centsWithin (2 * 10 ^ 11) (balance acc)" and "wholeCents a"
    and "j < length accs"
  shows "map (\<lambda>acc. centsOf (balance acc)) (credited accs j a)
           = (map (\<lambda>acc. centsOf (balance acc)) accs)[j := centsOf (balance (accs ! j)) + centsOf a]"
proof -
  have x: "centsWithin (2 * 10 ^ 11) (balance (accs ! j))" and a: "centsWithin (10 ^ 11) a"
    using assms by (simp_all add: wholeCents_def)
  have "\<bar>centsOf (balance (accs ! j))\<bar> \<le> 2 * 10 ^ 11" "\<bar>centsOf a\<bar> \<le> 10 ^ 11"
    using x a by (simp_all add: centsWithin_def)
  then have k: "\<bar>centsOf (balance (accs ! j)) + centsOf a\<bar> \<le> 3 * 10 ^ 11"
    by simp
  have n: "parseFloat (toFixed2 (fl (balance (accs ! j) + a)))
             = cents (centsOf (balance (accs ! j)) + centsOf a)"
    using x a by (rule add_cents)
  show ?thesis
    using k by (simp add: credited_def map_update n centsOf_cents)
qed

lemma cents_moved:
  assumes "\<forall>acc \<in> set accs. wholeCents (balance acc)" and "wholeCents a"
    and "i < length accs" and "j < length accs"
  shows "sum_list (map (\<lambda>acc. centsOf (balance acc)) (credited (debited accs i a) j a))
           = sum_list (map (\<lambda>acc. centsOf (balance acc)) accs)"
proof -
  let ?c = "map (\<lambda>acc. centsOf (balance acc))"
  note d = cents_debited [OF assms(1,2,3)]
  have j: "j < length (debited accs i a)"
    using assms(4) by simp
  have "sum_list (?c (credited (debited accs i a) j a))
          = sum_list (?c (debited accs i a)) + centsOf a"
    unfolding cents_credited [OF d(2) assms(2) j] using j
    by (simp add: sum_list_update_int)
  also have "\<dots> = sum_list (?c accs)"
    unfolding d(1) using assms(3) by (simp add: sum_list_update_int)
  finally show ?thesis .
qed

lemma transferFunds_state:
  "mockAccounts (snd (transferFunds now txDate txNow fromId toId amount s)) = mockAccounts s
   \<or> (\<exists>i j. i < length (mockAccounts s) \<and> j < length (mockAccounts s)
        \<and> \<not> balance (mockAccounts s ! i) < amount
        \<and> mockAccounts (snd (transferFunds now txDate txNow fromId toId amount s))
            = credited (debited (mockAccounts s) i amount) j amount)"
proof (cases rule: transferFunds_cases [of now txDate txNow fromId toId amount s])
  case (failed e)
  then show ?thesis by (simp add: checkRateLimit_frame)
next
  case (moved i j)
  have "i < length (mockAccounts s)" "j < length (mockAccounts s)"
    using moved(2,3) findIndex_Some by fastforce+
  with transferFunds_success [OF moved, of txDate txNow] moved(4) show ?thesis
    by auto
qed

lemma nonneg_debited:
  assumes "\<forall>acc \<in> set accs. 0 \<le> balance acc" and "\<not> balance (accs ! i) < a"
  shows "\<forall>acc \<in> set (debited accs i a). 0 \<le> balance acc"
proof
  fix acc assume "acc \<in> set (debited accs i a)"
  then have "acc = (accs ! i)\<lparr>balance := parseFloat (toFixed2 (fl (balance (accs ! i) - a)))\<rparr>
               \<or> acc \<in> set accs"
    by (rule set_debited)
  moreover have "0 \<le> parseFloat (toFixed2 (fl (balance (accs ! i) - a)))"
    using assms(2) by (intro rounded_nonneg) simp
  ultimately show "0 \<le> balance acc"
    using assms(1) by auto
qed

lemma nonneg_credited:
  assumes "\<forall>acc \<in> set accs. 0 \<le> balance acc" and "0 \<le> a" and "j < length accs"
  shows "\<forall>acc \<in> set (credited accs j a). 0 \<le> balance acc"
proof
  fix acc assume "acc \<in> set (credited accs j a)"
  then have "acc = (accs ! j)\<lparr>balance := parseFloat (toFixed2 (fl (balance (accs ! j) + a)))\<rparr>
               \<or> acc \<in> set accs"
    by (rule set_credited)
  moreover have "0 \<le> balance (accs ! j)"
    using assms(1,3) by simp
  then have "0 \<le> parseFloat (toFixed2 (fl (balance (accs ! j) + a)))"
    using assms(2) by (intro rounded_nonneg) simp
  ultimately show "0 \<le> balance acc"
    using assms(1) by auto
qed

lemma transferFunds_nonneg:
  assumes "\<forall>acc \<in> set (mockAccounts s). 0 \<le> balance acc" and "0 \<le> amount"
  shows "\<forall>acc \<in> set (mockAccounts (snd (transferFunds now txDate txNow fromId toId amount s))).
           0 \<le> balance acc"
proof -
  let ?s' = "snd (transferFunds now txDate txNow fromId toId amount s)"
  from transferFunds_state [of now txDate txNow fromId toId amount s]
  consider "mockAccounts ?s' = mockAccounts s"
    | i j where "i < length (mockAccounts s)" "j < length (mockAccounts s)"
        "\<not> balance (mockAccounts s ! i) < amount"
        "mockAccounts ?s' = credited (debited (mockAccounts s) i amount) j amount"
    by auto
  then show ?thesis
  proof cases
    case 1
    with assms(1) show ?thesis by simp
  next
    case (2 i j)
    have "\<forall>acc \<in> set (debited (mockAccounts s) i amount). 0 \<le> balance acc"
      using assms(1) 2(3) by (rule nonneg_debited)
    then have "\<forall>acc \<in> set (credited (debited (mockAccounts s) i amount) j amount).
                 0 \<le> balance acc"
      using assms(2) 2(2) by (intro nonneg_credited) simp_all
    with 2(4) show ?thesis by simp
  qed
qed

text \<open>
  The code after the await keeps the total in whole cents, whatever ran before it.
\<close>

lemma resume_conserves_cents:
  assumes "pend_from p < length (mockAccounts s)" and "pend_to p < length (mockAccounts s)"
    and "\<forall>acc \<in> set (mockAccounts s). wholeCents (balance acc)"
    and "wholeCents (pend_amount p)"
  shows "totalCents (snd (transferFunds_resume txDate txNow p s)) = totalCents s"
  unfolding resume_state [OF assms(1,2)] totalCents_def
  using cents_moved [OF assms(3,4,1,2)] by simp

subsection \<open>Events\<close>

lemma runEvents_simps [simp]:
  "runEvents st [] = st"
  "runEvents st (e # es) = runEvents (runEvent st e) es"
  by (simp_all add: runEvents_def)

lemma begin_frame:
  "mockAccounts (snd (transferFunds_begin now fromId toId amount s)) = mockAccounts s"
  "mockTransactions (snd (transferFunds_begin now fromId toId amount s)) = mockTransactions s"
proof -
  show "mockAccounts (snd (transferFunds_begin now fromId toId amount s)) = mockAccounts s"
  proof (cases rule: begin_cases [of now fromId toId amount s])
    case (failed e)
    then show ?thesis by (simp add: checkRateLimit_frame)
  next
    case (passed i j)
    from begin_passed [OF passed] show ?thesis by (simp add: checkRateLimit_frame)
  qed
  show "mockTransactions (snd (transferFunds_begin now fromId toId amount s)) = mockTransactions s"
  proof (cases rule: begin_cases [of now fromId toId amount s])
    case (failed e)
    then show ?thesis by (simp add: checkRateLimit_frame)
  next
    case (passed i j)
    from begin_passed [OF passed] show ?thesis by (simp add: checkRateLimit_frame)
  qed
qed

text \<open>A call on its own leaves the accounts as they are until its timer fires.\<close>

lemma call_keeps_accounts:
  "mockAccounts (fst (runEvent (s, waiting) (Call c))) = mockAccounts s"
proof -
  obtain r s1 where b: "transferFunds_begin (call_now c) (call_from c) (call_to c) (call_amount c) s
      = (r, s1)"
    by (cases "transferFunds_begin (call_now c) (call_from c) (call_to c) (call_amount c) s")
  have "mockAccounts s1 = mockAccounts s"
    using begin_frame(1) [of "call_now c" "call_from c" "call_to c" "call_amount c" s] b by simp
  then show ?thesis
    by (cases r) (simp_all add: b)
qed

text \<open>A call and the firing of its timer are the call with nothing in between.\<close>

lemma call_then_timer:
  "runEvents (s, []) [Call c, TimerFires]
     = (snd (transferFunds (call_now c) (call_txDate c) (call_txNow c)
               (call_from c) (call_to c) (call_amount c) s), [])"
proof -
  obtain r s1 where b: "transferFunds_begin (call_now c) (call_from c) (call_to c) (call_amount c) s
      = (r, s1)"
    by (cases "transferFunds_begin (call_now c) (call_from c) (call_to c) (call_amount c) s")
  show ?thesis
    by (cases r) (simp_all add: b transferFunds_def split: prod.splits)
qed

lemma serial_nonneg:
  "\<forall>acc \<in> set (mockAccounts s). 0 \<le> balance acc \<Longrightarrow> \<forall>c \<in> set cs. 0 \<le> call_amount c \<Longrightarrow>
   \<forall>acc \<in> set (mockAccounts (fst (runEvents (s, []) (take n (serial cs))))). 0 \<le> balance acc"
proof (induction cs arbitrary: s n)
  case Nil
  then show ?case by (simp add: serial_def)
next
  case (Cons c cs)
  let ?s' = "snd (transferFunds (call_now c) (call_txDate c) (call_txNow c)
               (call_from c) (call_to c) (call_amount c) s)"
  have ser: "serial (c # cs) = Call c # TimerFires # serial cs"
    by (simp add: serial_def)
  show ?case
  proof (cases n)
    case 0
    with Cons.prems(1) show ?thesis by simp
  next
    case n: (Suc m)
    show ?thesis
    proof (cases m)
      case 0
      with n Cons.prems(1) show ?thesis
        by (simp add: ser call_keeps_accounts del: runEvent.simps)
    next
      case (Suc k)
      have "\<forall>acc \<in> set (mockAccounts ?s'). 0 \<le> balance acc"
        using Cons.prems by (intro transferFunds_nonneg) simp_all
      moreover have "\<forall>c \<in> set cs. 0 \<le> call_amount c"
        using Cons.prems(2) by simp
      ultimately have "\<forall>acc \<in> set (mockAccounts (fst (runEvents (?s', []) (take k (serial cs))))).
          0 \<le> balance acc"
        by (rule Cons.IH)
      moreover have "runEvents (s, []) (take n (serial (c # cs)))
          = runEvents (?s', []) (take k (serial cs))"
        using call_then_timer [of s c] by (simp add: ser n Suc)
      ultimately show ?thesis by simp
    qed
  qed
qed

subsection \<open>The order of the log\<close>

lemma newestFirst_sort_key: "newestFirst (sort_key (\<lambda>t. - tx_date t) txs)"
proof -
  have "sorted (map (\<lambda>t. - tx_date t) (sort_key (\<lambda>t. - tx_date t) txs))"
    by (rule sorted_sort_key)
  then show ?thesis
    by (simp add: newestFirst_def sorted_map)
qed

lemma newestFirst_take_drop:
  "newestFirst txs \<Longrightarrow> newestFirst (take n (drop m txs))"
  unfolding newestFirst_def by (intro sorted_wrt_take sorted_wrt_drop)

text \<open>
  The log stays newest first when the clock of a transfer is not behind the dates in it.
\<close>

lemma transfer_keeps_newestFirst:
  assumes "newestFirst (mockTransactions s)"
    and "\<forall>t \<in> set (mockTransactions s). tx_date t \<le> txDate"
  shows "newestFirst (mockTransactions (snd (transferFunds now txDate txNow fromId toId amount s)))"
proof (cases rule: transferFunds_cases [of now txDate txNow fromId toId amount s])
  case (failed e)
  with assms(1) show ?thesis by (simp add: checkRateLimit_frame)
next
  case (moved i j)
  from transferFunds_success [OF moved, of txDate txNow] assms show ?thesis
    by (simp add: newestFirst_def)
qed

subsection \<open>The limiter\<close>

lemma checkRateLimit_fields:
  "lastRequestTime (snd (checkRateLimit now s)) = now"
  "requestCount (snd (checkRateLimit now s))
     = (if now - lastRequestTime s > 60000 then 0 else requestCount s) + 1"
  "fst (checkRateLimit now s)
     \<longleftrightarrow> (if now - lastRequestTime s > 60000 then 0 else requestCount s) + 1 \<le> 10"
  by (auto simp: checkRateLimit_def Let_def)

lemma checkRateLimits_length [simp]: "length (checkRateLimits s ts) = length ts"
  by (induction ts arbitrary: s) simp_all

lemma rejected_stays_rejected:
  "10 < requestCount s \<Longrightarrow> spaced (lastRequestTime s # ts) \<Longrightarrow>
   \<forall>b \<in> set (checkRateLimits s ts). \<not> b"
proof (induction ts arbitrary: s)
  case Nil
  then show ?case by simp
next
  case (Cons t ts)
  let ?s' = "snd (checkRateLimit t s)"
  from Cons.prems have gap: "\<not> t - lastRequestTime s > 60000" by simp
  with Cons.prems have rej: "\<not> fst (checkRateLimit t s)"
    and cnt: "10 < requestCount ?s'"
    by (simp_all add: checkRateLimit_fields)
  have "spaced (lastRequestTime ?s' # ts)"
    using Cons.prems by (simp add: checkRateLimit_fields)
  from Cons.IH [OF cnt this] rej show ?case by simp
qed

lemma rejected_then_count: "\<not> fst (checkRateLimit t s) \<Longrightarrow> 10 < requestCount (snd (checkRateLimit t s))"
  by (auto simp: checkRateLimit_def Let_def split: if_splits)

lemma spaced_tail: "spaced (t # ts) \<Longrightarrow> spaced ts"
  by (cases ts) simp_all

lemma once_rejected:
  "spaced ts \<Longrightarrow> i < j \<Longrightarrow> j < length ts \<Longrightarrow> \<not> checkRateLimits s ts ! i \<Longrightarrow>
   \<not> checkRateLimits s ts ! j"
proof (induction ts arbitrary: s i j)
  case Nil
  then show ?case by simp
next
  case (Cons t ts)
  let ?s' = "snd (checkRateLimit t s)"
  from Cons.prems(2) obtain j' where j: "j = Suc j'" by (cases j) simp_all
  show ?case
  proof (cases i)
    case 0
    with Cons.prems have rej: "\<not> fst (checkRateLimit t s)" by simp
    have "spaced (lastRequestTime ?s' # ts)"
      using Cons.prems(1) by (simp add: checkRateLimit_fields)
    from rejected_stays_rejected [OF rejected_then_count [OF rej] this]
    have all: "\<forall>b \<in> set (checkRateLimits ?s' ts). \<not> b" .
    have "checkRateLimits ?s' ts ! j' \<in> set (checkRateLimits ?s' ts)"
      using Cons.prems(3) j by (intro nth_mem) simp
    with all have "\<not> checkRateLimits ?s' ts ! j'" by blast
    with j show ?thesis by simp
  next
    case (Suc i')
    with Cons.prems j have "i' < j'" "j' < length ts" "\<not> checkRateLimits ?s' ts ! i'"
      by simp_all
    from Cons.IH [OF spaced_tail [OF Cons.prems(1)] this] j show ?thesis by simp
  qed
qed

text \<open>
  What the limiter does: a call that comes more than 60 seconds after the call before it
  is admitted and counted as the first; calls that each come less than 60 seconds after
  the one before are counted on, and admitted while the count is at most 10.
\<close>

lemma call_after_gap:
  "60000 < now - lastRequestTime s \<Longrightarrow>
   fst (checkRateLimit now s) \<and> requestCount (snd (checkRateLimit now s)) = 1
   \<and> rateLimitReset (snd (checkRateLimit now s)) = now + 60000"
  by (simp add: checkRateLimit_def Let_def)

lemma counts_without_gap:
  "spaced (lastRequestTime s # ts) \<Longrightarrow> k < length ts \<Longrightarrow>
   checkRateLimits s ts ! k = (requestCount s + k < 10)"
proof (induction ts arbitrary: s k)
  case Nil
  then show ?case by simp
next
  case (Cons t ts)
  let ?s' = "snd (checkRateLimit t s)"
  from Cons.prems(1) have gap: "\<not> t - lastRequestTime s > 60000" by simp
  then have c: "requestCount ?s' = requestCount s + 1"
    and f: "fst (checkRateLimit t s) = (requestCount s < 10)"
    by (auto simp: checkRateLimit_fields)
  have sp: "spaced (lastRequestTime ?s' # ts)"
    using Cons.prems(1) by (simp add: checkRateLimit_fields)
  show ?case
  proof (cases k)
    case 0
    with f show ?thesis by simp
  next
    case (Suc k')
    with Cons.prems(2) have "k' < length ts" by simp
    from Cons.IH [OF sp this] c Suc show ?thesis by simp
  qed
qed

lemma limiter_after_call:
  "requestCount (snd (getBalance now s)) = requestCount (snd (checkRateLimit now s))"
  "lastRequestTime (snd (getBalance now s)) = lastRequestTime (snd (checkRateLimit now s))"
  "requestCount (snd (getTransactions now page pageSize s)) = requestCount (snd (checkRateLimit now s))"
  "lastRequestTime (snd (getTransactions now page pageSize s))
     = lastRequestTime (snd (checkRateLimit now s))"
  "requestCount (snd (ApiService_generateInvoice now addDays r1 r2 r3 currentDate nowId startDate endDate s))
     = requestCount (snd (checkRateLimit now s))"
  "lastRequestTime (snd (ApiService_generateInvoice now addDays r1 r2 r3 currentDate nowId startDate endDate s))
     = lastRequestTime (snd (checkRateLimit now s))"
proof -
  obtain b s1 where c: "checkRateLimit now s = (b, s1)"
    by (cases "checkRateLimit now s")
  show "requestCount (snd (getBalance now s)) = requestCount (snd (checkRateLimit now s))"
    "lastRequestTime (snd (getBalance now s)) = lastRequestTime (snd (checkRateLimit now s))"
    by (cases b; simp add: getBalance_def c)+
  show "requestCount (snd (getTransactions now page pageSize s))
          = requestCount (snd (checkRateLimit now s))"
    "lastRequestTime (snd (getTransactions now page pageSize s))
       = lastRequestTime (snd (checkRateLimit now s))"
    by (cases b; simp add: getTransactions_def c Let_def)+
  show "requestCount (snd (ApiService_generateInvoice now addDays r1 r2 r3 currentDate nowId startDate
            endDate s)) = requestCount (snd (checkRateLimit now s))"
    "lastRequestTime (snd (ApiService_generateInvoice now addDays r1 r2 r3 currentDate nowId startDate
            endDate s)) = lastRequestTime (snd (checkRateLimit now s))"
    by (cases b; simp add: ApiService_generateInvoice_def c)+
qed

lemma limiter_after_transfer:
  "requestCount (snd (transferFunds now txDate txNow fromId toId amount s))
     = requestCount (snd (checkRateLimit now s))"
  "lastRequestTime (snd (transferFunds now txDate txNow fromId toId amount s))
     = lastRequestTime (snd (checkRateLimit now s))"
proof -
  show "requestCount (snd (transferFunds now txDate txNow fromId toId amount s))
     = requestCount (snd (checkRateLimit now s))"
  proof (cases rule: transferFunds_cases [of now txDate txNow fromId toId amount s])
    case (failed e)
    then show ?thesis by simp
  next
    case (moved i j)
    from transferFunds_success [OF moved, of txDate txNow] show ?thesis by simp
  qed
  show "lastRequestTime (snd (transferFunds now txDate txNow fromId toId amount s))
     = lastRequestTime (snd (checkRateLimit now s))"
  proof (cases rule: transferFunds_cases [of now txDate txNow fromId toId amount s])
    case (failed e)
    then show ?thesis by simp
  next
    case (moved i j)
    from transferFunds_success [OF moved, of txDate txNow] show ?thesis by simp
  qed
qed

subsection \<open>Slices\<close>

lemma slice_take_drop:
  assumes "0 \<le> start" and "start \<le> end"
  shows "slice xs start end = take (nat (end - start)) (drop (nat start) xs)"
proof (cases "start < int (length xs)")
  case False
  with assms show ?thesis by (simp add: slice_def Let_def min_def)
next
  case st: True
  show ?thesis
  proof (cases "end \<le> int (length xs)")
    case True
    with assms st show ?thesis by (simp add: slice_def Let_def min_def)
  next
    case False
    with assms st have "length (drop (nat start) xs) \<le> nat (end - start)"
      and "length (drop (nat start) xs) \<le> nat (int (length xs) - start)"
      by simp_all
    with assms st False show ?thesis by (simp add: slice_def Let_def min_def)
  qed
qed

lemma length_take_drop_int:
  assumes "0 \<le> m" and "0 \<le> p"
  shows "int (length (take (nat p) (drop (nat m) xs))) = min p (max 0 (int (length xs) - m))"
  using assms by (simp add: min_def max_def) linarith

subsection \<open>The stored session\<close>

lemmas json_defs = JSON_stringify_def JSON_quote_def quote_char_def dquote_def bslash_def
  skip_ws_def is_ws_def parse_value_def unescape_def JSON_parse_def parse_members.simps

lemma btoa_nonempty: "str \<noteq> [] \<Longrightarrow> btoa str \<noteq> []"
  by (cases str rule: btoa.cases) (simp_all add: Let_def)

lemma JSON_stringify_nonempty: "JSON_stringify obj \<noteq> []"
  by (simp add: JSON_stringify_def)

lemma demo_round_trip: "JSON_parse (JSON_stringify demoUser) = Some demoUser"
  by (simp add: demoUser_def json_defs)

lemma admin_round_trip: "JSON_parse (JSON_stringify adminUser) = Some adminUser"
  by (simp add: adminUser_def json_defs)

lemma login_cases:
  assumes "login email password s = (Inr (), s')"
  obtains u where "u = demoUser \<or> u = adminUser"
    and "user s' = Some u"
    and "localStorage s' ''fintech_user'' = Some (JSON_stringify u)"
    and "truthy (localStorage s' ''fintech_token'')"
proof -
  let ?p = "\<lambda>u. map_of u ''email'' = Some (JStr email) \<and> map_of u ''password'' = Some (JStr password)"
  from assms obtain foundUser where f: "find ?p MOCK_USERS = Some foundUser"
    by (auto simp: login_def split: option.splits)
  then have m: "foundUser = MOCK_USERS ! 0 \<or> foundUser = MOCK_USERS ! 1"
    by (auto simp: MOCK_USERS_def split: if_splits)
  let ?u = "filter (\<lambda>(k, v). k \<noteq> ''password'') foundUser"
  have u: "?u = demoUser \<or> ?u = adminUser"
    using m by (auto simp: MOCK_USERS_def demoUser_def adminUser_def)
  have t: "btoa (JSON_stringify (pick [''id'', ''email'', ''role''] foundUser)) \<noteq> []"
    by (intro btoa_nonempty JSON_stringify_nonempty)
  from assms f have s': "s' = s\<lparr>user := Some ?u, loading := False,
      localStorage := (localStorage s)
        (''fintech_token'' \<mapsto> btoa (JSON_stringify (pick [''id'', ''email'', ''role''] foundUser)),
         ''fintech_user'' \<mapsto> JSON_stringify ?u)\<rparr>"
    by (simp add: login_def Let_def)
  show ?thesis
  proof (rule that [of ?u])
    show "?u = demoUser \<or> ?u = adminUser" by (rule u)
    show "user s' = Some ?u" by (simp add: s')
    show "localStorage s' ''fintech_user'' = Some (JSON_stringify ?u)" by (simp add: s')
    show "truthy (localStorage s' ''fintech_token'')" using t by (simp add: s')
  qed
qed

lemma login_token_value:
  "localStorage (snd (login ''demo@example.com'' ''password''
       \<lparr>user = None, loading = False, localStorage = Map.empty\<rparr>)) ''fintech_token''
   = Some ''eyJpZCI6InVzZXItMSIsImVtYWlsIjoiZGVtb0BleGFtcGxlLmNvbSIsInJvbGUiOiJ1c2VyIn0=''"
  by (simp add: login_def MOCK_USERS_def Let_def pick_def json_defs b64_def)


subsection \<open>The seeded service\<close>

lemmas limiter_eval = checkRateLimit_def initialState_def Let_def

lemma initial_admits: "fst (checkRateLimit now (initialState txs))"
  by (simp add: limiter_eval)

lemma seeded_find:
  "findIndex (\<lambda>acc. acc_id acc = ''acc-1'') seedAccounts = Some 0"
  "findIndex (\<lambda>acc. acc_id acc = ''acc-2'') seedAccounts = Some 1"
  "findIndex (\<lambda>acc. acc_id acc = ''acc-2'') seedAccounts = Some (Suc 0)"
  "acc_name (seedAccounts ! 0) = ''Checking Account''"
  "acc_name (seedAccounts ! 1) = ''Savings Account''"
  "acc_name (seedAccounts ! Suc 0) = ''Savings Account''"
  "balance (seedAccounts ! 0) = 20983 / 4"
  by (simp_all add: seedAccounts_def fl_eval)

lemma seeded_success:
  assumes "findIndex (\<lambda>acc. acc_id acc = fromId) seedAccounts = Some i"
    and "findIndex (\<lambda>acc. acc_id acc = toId) seedAccounts = Some j"
    and "\<not> balance (seedAccounts ! i) < amount"
  shows "fst (transferFunds now txDate txNow fromId toId amount (initialState txs))
           = Inr \<lparr>success = True, msg_amount = amount, msg_from = acc_name (seedAccounts ! i),
                  msg_to = acc_name (seedAccounts ! j)\<rparr>"
    and "mockAccounts (snd (transferFunds now txDate txNow fromId toId amount (initialState txs)))
           = credited (debited seedAccounts i amount) j amount"
proof -
  have m: "mockAccounts (initialState txs) = seedAccounts"
    by (simp add: initialState_def)
  note s = transferFunds_success [of now "initialState txs" fromId i toId j amount txDate txNow,
      unfolded m, OF initial_admits assms]
  show "fst (transferFunds now txDate txNow fromId toId amount (initialState txs))
           = Inr \<lparr>success = True, msg_amount = amount, msg_from = acc_name (seedAccounts ! i),
                  msg_to = acc_name (seedAccounts ! j)\<rparr>"
    by (simp add: s)
  show "mockAccounts (snd (transferFunds now txDate txNow fromId toId amount (initialState txs)))
           = credited (debited seedAccounts i amount) j amount"
    by (simp add: s)
qed

lemmas seeded_transfer = seeded_success [OF seeded_find(1) seeded_find(2)]

lemmas assign_eval = credited_def debited_def seedAccounts_def toFixed2_def fl_eval

text \<open>A call that passes the checks waits, and the firing of its timer writes.\<close>

lemma call_passed:
  assumes "fst (checkRateLimit (call_now c) s)"
    and "findIndex (\<lambda>acc. acc_id acc = call_from c) (mockAccounts s) = Some i"
    and "findIndex (\<lambda>acc. acc_id acc = call_to c) (mockAccounts s) = Some j"
    and "\<not> balance (mockAccounts s ! i) < call_amount c"
  shows "runEvent (s, waiting) (Call c)
           = (snd (checkRateLimit (call_now c) s),
              waiting @ [(c, \<lparr>pend_from = i, pend_to = j, pend_amount = call_amount c\<rparr>)])"
  by (simp add: begin_passed [OF assms])

lemma resume_accounts:
  assumes "pend_from p < length (mockAccounts s)" and "pend_to p < length (mockAccounts s)"
  shows "mockAccounts (snd (transferFunds_resume txDate txNow p s))
           = credited (debited (mockAccounts s) (pend_from p) (pend_amount p))
               (pend_to p) (pend_amount p)"
  by (simp add: resume_state [OF assms])

section \<open>Properties of the transfer\<close>

text \<open>
  C8. A call of \<open>transferFunds\<close> that fails, for whichever reason (the limiter,
  an account that is not found, insufficient funds), leaves every balance and the
  transaction log as they were; only the limiter's counter and timestamp move. In
  particular a transfer of 10000 from the checking account (balance 5245.75) to the
  savings account, on the service as seeded, fails with \<open>InsufficientFunds\<close>,
  and the accounts and the log after it are the seeded ones. A call fails before its
  \<open>await\<close>, so nothing can come in between.
\<close>

theorem transfer_all_or_nothing:
  "(transferFunds now txDate txNow fromId toId amount s = (Inl e, s') \<longrightarrow>
      mockAccounts s' = mockAccounts s \<and> mockTransactions s' = mockTransactions s)
   \<and> fst (transferFunds now txDate txNow ''acc-1'' ''acc-2'' 10000 (initialState txs))
        = Inl InsufficientFunds
   \<and> mockAccounts (snd (transferFunds now txDate txNow ''acc-1'' ''acc-2'' 10000 (initialState txs)))
        = seedAccounts
   \<and> mockTransactions (snd (transferFunds now txDate txNow ''acc-1'' ''acc-2'' 10000 (initialState txs)))
        = txs"
proof (intro conjI impI)
  assume f: "transferFunds now txDate txNow fromId toId amount s = (Inl e, s')"
  have "s' = snd (checkRateLimit now s)"
  proof (cases rule: transferFunds_cases [of now txDate txNow fromId toId amount s])
    case (failed e')
    with f show ?thesis by simp
  next
    case (moved i j)
    from transferFunds_success [OF moved, of txDate txNow] f show ?thesis by simp
  qed
  then show "mockAccounts s' = mockAccounts s" "mockTransactions s' = mockTransactions s"
    by (simp_all add: checkRateLimit_frame)
next
  let ?s = "initialState txs"
  have adm: "fst (checkRateLimit now ?s)"
    by (simp add: checkRateLimit_def initialState_def Let_def)
  have i: "findIndex (\<lambda>acc. acc_id acc = ''acc-1'') (mockAccounts ?s) = Some 0"
    and j: "findIndex (\<lambda>acc. acc_id acc = ''acc-2'') (mockAccounts ?s) = Some 1"
    by (simp_all add: initialState_def seedAccounts_def)
  have b: "balance (mockAccounts ?s ! 0) < 10000"
    by (simp add: initialState_def seeded_find)
  note r = transferFunds_insufficient [OF adm i j b, of txDate txNow]
  show "fst (transferFunds now txDate txNow ''acc-1'' ''acc-2'' 10000 ?s) = Inl InsufficientFunds"
    by (simp add: r)
  show "mockAccounts (snd (transferFunds now txDate txNow ''acc-1'' ''acc-2'' 10000 ?s)) = seedAccounts"
    by (simp add: r checkRateLimit_frame) (simp add: initialState_def)
  show "mockTransactions (snd (transferFunds now txDate txNow ''acc-1'' ''acc-2'' 10000 ?s)) = txs"
    by (simp add: r checkRateLimit_frame) (simp add: initialState_def)
qed

theorem transfer_all_or_nothing_witness:
  "fst (transferFunds 1700000000000 1700000001000 1700000001000 ''acc-1'' ''acc-2'' 10000
          (initialState [])) = Inl InsufficientFunds
   \<and> mockAccounts (snd (transferFunds 1700000000000 1700000001000 1700000001000
          ''acc-1'' ''acc-2'' 10000 (initialState []))) = mockAccounts (initialState [])
   \<and> mockTransactions (snd (transferFunds 1700000000000 1700000001000 1700000001000
          ''acc-1'' ''acc-2'' 10000 (initialState []))) = mockTransactions (initialState [])"
proof -
  let ?r = "transferFunds 1700000000000 1700000001000 1700000001000 ''acc-1'' ''acc-2'' 10000
              (initialState [])"
  note t = transfer_all_or_nothing [of 1700000000000 1700000001000
          1700000001000 "''acc-1''" "''acc-2''" 10000 "initialState []" InsufficientFunds
          "snd ?r" "[]"]
  have r: "fst ?r = Inl InsufficientFunds"
    by (rule conjunct1 [OF conjunct2 [OF t]])
  then have f: "?r = (Inl InsufficientFunds, snd ?r)"
    by (metis prod.collapse)
  have "?r = (Inl InsufficientFunds, snd ?r) \<longrightarrow>
          mockAccounts (snd ?r) = mockAccounts (initialState [])
          \<and> mockTransactions (snd ?r) = mockTransactions (initialState [])"
    by (rule conjunct1 [OF t])
  with f r show ?thesis by blast
qed

text \<open>
  C2, as the service has it. \<open>transferFunds\<close> fails with \<open>RateLimited\<close>
  when the limiter rejects the call; otherwise with \<open>NotFound\<close> when either id is
  not the id of an account; otherwise with \<open>InsufficientFunds\<close> when the amount is
  greater than the balance of the source account; in every other case it succeeds. These
  are all its checks, made in this order: it has none for equal ids and none for the sign
  of the amount (the transfer form refuses both before it calls the service).
\<close>

theorem transfer_outcome:
  "fst (transferFunds now txDate txNow fromId toId amount s) =
     (if \<not> fst (checkRateLimit now s) then Inl RateLimited
      else
        (case find (\<lambda>acc. acc_id acc = fromId) (mockAccounts s) of
           None \<Rightarrow> Inl NotFound
         | Some fromAccount \<Rightarrow>
             (case find (\<lambda>acc. acc_id acc = toId) (mockAccounts s) of
                None \<Rightarrow> Inl NotFound
              | Some toAccount \<Rightarrow>
                  (if balance fromAccount < amount then Inl InsufficientFunds
                   else Inr \<lparr>success = True, msg_amount = amount,
                              msg_from = acc_name fromAccount, msg_to = acc_name toAccount\<rparr>))))"
proof (cases rule: transferFunds_cases [of now txDate txNow fromId toId amount s])
  case (moved i j)
  from transferFunds_success [OF moved, of txDate txNow] moved show ?thesis
    by (simp add: findIndex_find)
next
  case (failed e)
  show ?thesis
  proof (cases "fst (checkRateLimit now s)")
    case False
    then show ?thesis by (simp add: transferFunds_limited)
  next
    case adm: True
    show ?thesis
    proof (cases "findIndex (\<lambda>acc. acc_id acc = fromId) (mockAccounts s)")
      case None
      with adm show ?thesis by (simp add: transferFunds_no_from findIndex_find)
    next
      case i: (Some i)
      show ?thesis
      proof (cases "findIndex (\<lambda>acc. acc_id acc = toId) (mockAccounts s)")
        case None
        with adm i show ?thesis by (simp add: transferFunds_no_to findIndex_find)
      next
        case j: (Some j)
        show ?thesis
        proof (cases "balance (mockAccounts s ! i) < amount")
          case True
          with adm i j show ?thesis by (simp add: transferFunds_insufficient findIndex_find)
        next
          case False
          from transferFunds_success [OF adm i j False, of txDate txNow] adm i j False
          show ?thesis by (simp add: findIndex_find)
        qed
      qed
    qed
  qed
qed

theorem transfer_outcome_witness:
  "fst (transferFunds 1700000000000 1700000001000 1700000001000 ''acc-1'' ''acc-2'' 100
          (initialState []))
     = Inr \<lparr>success = True, msg_amount = 100, msg_from = ''Checking Account'',
            msg_to = ''Savings Account''\<rparr>
   \<and> fst (transferFunds 1700000000000 1700000001000 1700000001000 ''acc-1'' ''acc-3'' 100
          (initialState [])) = Inl NotFound
   \<and> fst (transferFunds 1700000000000 1700000001000 1700000001000 ''acc-1'' ''acc-2'' 10000
          (initialState [])) = Inl InsufficientFunds"
proof -
  have a: "fst (checkRateLimit 1700000000000 (initialState []))"
    by (simp add: limiter_eval)
  have m: "mockAccounts (initialState []) = seedAccounts"
    by (simp add: initialState_def)
  show ?thesis
    unfolding transfer_outcome [of 1700000000000 1700000001000 1700000001000 _ _ _
        "initialState []"]
    using a by (simp add: m seedAccounts_def fl_eval)
qed

text \<open>
  C2 as stated does not hold: on the seeded service a transfer of 100 from the checking
  account to itself succeeds, not failing with \<open>SameAccount\<close>, and so does a transfer
  of \<open>-50\<close> from checking to savings, not failing with \<open>InvalidAmount\<close>.
\<close>

theorem transfer_same_account_counterexample:
  "fst (transferFunds 1700000000000 1700000001000 1700000001000 ''acc-1'' ''acc-1'' 100
          (initialState []))
     = Inr \<lparr>success = True, msg_amount = 100, msg_from = ''Checking Account'',
            msg_to = ''Checking Account''\<rparr>
   \<and> fst (transferFunds 1700000000000 1700000001000 1700000001000 ''acc-1'' ''acc-2'' (- 50)
          (initialState []))
     = Inr \<lparr>success = True, msg_amount = - 50, msg_from = ''Checking Account'',
            msg_to = ''Savings Account''\<rparr>"
  by (simp add: seeded_success(1) [OF seeded_find(1) seeded_find(1)] seeded_transfer(1)
        seeded_find)



text \<open>
  C1, as the service has it. A balance or an amount of whole cents is the binary64
  number nearest to a decimal with two digits after the point, here of at most
  \<open>10^11\<close> cents in magnitude. When every balance of the ledger and the amount are
  of whole cents, a successful transfer leaves the sum of the balances, counted in cents,
  unchanged: what one account loses in cents the other gains. The seeded balances are of
  whole cents. The two assignments are made one after the other after the \<open>await\<close>,
  and on their own they keep the sum in cents too, whatever ran during the
  \<open>await\<close> (\<open>resume_conserves_cents\<close>).
\<close>

theorem transfer_conserves_total:
  assumes "transferFunds now txDate txNow fromId toId amount s = (Inr r, s')"
    and "\<forall>acc \<in> set (mockAccounts s). wholeCents (balance acc)"
    and "wholeCents amount"
  shows "totalCents s' = totalCents s"
proof -
  from transferFunds_state [of now txDate txNow fromId toId amount s] assms(1)
  consider "mockAccounts s' = mockAccounts s"
    | i j where "i < length (mockAccounts s)" "j < length (mockAccounts s)"
        "mockAccounts s' = credited (debited (mockAccounts s) i amount) j amount"
    by auto
  then show ?thesis
  proof cases
    case 1
    then show ?thesis by (simp add: totalCents_def)
  next
    case (2 i j)
    from cents_moved [OF assms(2,3) 2(1,2)] 2(3) show ?thesis
      by (simp add: totalCents_def)
  qed
qed

theorem transfer_conserves_total_witness:
  "fst (transferFunds 1700000000000 1700000001000 1700000001000 ''acc-1'' ''acc-2''
          (fl (6 / 100)) (initialState []))
     = Inr \<lparr>success = True, msg_amount = fl (6 / 100), msg_from = ''Checking Account'',
            msg_to = ''Savings Account''\<rparr>
   \<and> list_all (\<lambda>acc. wholeCents (balance acc)) (mockAccounts (initialState []))
   \<and> wholeCents (fl (6 / 100))
   \<and> map (\<lambda>acc. centsOf (balance acc)) (mockAccounts (initialState [])) = [524575, 1273540]
   \<and> map (\<lambda>acc. centsOf (balance acc))
       (mockAccounts (snd (transferFunds 1700000000000 1700000001000 1700000001000
          ''acc-1'' ''acc-2'' (fl (6 / 100)) (initialState [])))) = [524569, 1273546]
   \<and> totalCents (snd (transferFunds 1700000000000 1700000001000 1700000001000
          ''acc-1'' ''acc-2'' (fl (6 / 100)) (initialState []))) = totalCents (initialState [])"
proof -
  let ?r = "transferFunds 1700000000000 1700000001000 1700000001000 ''acc-1'' ''acc-2''
              (fl (6 / 100)) (initialState [])"
  let ?v = "\<lparr>success = True, msg_amount = fl (6 / 100), msg_from = ''Checking Account'',
             msg_to = ''Savings Account''\<rparr>"
  have n: "\<not> balance (seedAccounts ! 0) < fl (6 / 100)"
    by (simp add: seeded_find fl_eval)
  have r: "fst ?r = Inr ?v"
    using seeded_transfer(1) [OF n] by (simp add: seeded_find)
  then have f: "?r = (Inr ?v, snd ?r)"
    by (metis prod.collapse)
  have w: "\<forall>acc \<in> set (mockAccounts (initialState [])). wholeCents (balance acc)"
    by (simp add: initialState_def seedAccounts_def wholeCents_def centsWithin_def centsOf_def
          cents_def fl_eval)
  then have w': "list_all (\<lambda>acc. wholeCents (balance acc)) (mockAccounts (initialState []))"
    by (simp only: list_all_iff)
  have a: "wholeCents (fl (6 / 100))"
    by (simp add: wholeCents_def centsWithin_def centsOf_def cents_def fl_eval)
  have b0: "map (\<lambda>acc. centsOf (balance acc)) (mockAccounts (initialState [])) = [524575, 1273540]"
    by (simp add: initialState_def seedAccounts_def centsOf_def fl_eval)
  have b: "map (\<lambda>acc. centsOf (balance acc)) (mockAccounts (snd ?r)) = [524569, 1273546]"
    unfolding seeded_transfer(2) [OF n] by (simp add: assign_eval centsOf_def)
  from transfer_conserves_total [OF f w a] r w' a b0 b show ?thesis by blast
qed

text \<open>
  C1 as stated does not hold. The sum of the balances themselves changes with an amount
  of whole cents: on the seeded service a transfer of 0.06 from checking to savings
  leaves 5245.69 and 12735.46, whose sum in binary64 is 17981.149999999998, where the
  sum of 5245.75 and 12735.40 before it is 17981.15; the exact sums of the four binary64
  numbers differ as well. And the sum in cents changes with an amount that is not of
  whole cents, since each balance is rounded to cents on its own: a transfer of 4000.125
  leaves 1245.63 and 16735.53, one cent more in total.
\<close>

theorem transfer_rounding_counterexample:
  "fst (transferFunds 1700000000000 1700000001000 1700000001000 ''acc-1'' ''acc-2''
          (fl (6 / 100)) (initialState []))
     = Inr \<lparr>success = True, msg_amount = fl (6 / 100), msg_from = ''Checking Account'',
            msg_to = ''Savings Account''\<rparr>
   \<and> map balance (mockAccounts (snd (transferFunds 1700000000000 1700000001000 1700000001000
          ''acc-1'' ''acc-2'' (fl (6 / 100)) (initialState []))))
       = [fl (524569 / 100), fl (1273546 / 100)]
   \<and> totalBalance (initialState []) = 2471310438223053 / 2 ^ 37
   \<and> totalBalance (snd (transferFunds 1700000000000 1700000001000 1700000001000
          ''acc-1'' ''acc-2'' (fl (6 / 100)) (initialState []))) = 4942620876446105 / 2 ^ 38
   \<and> totalBalance (snd (transferFunds 1700000000000 1700000001000 1700000001000
          ''acc-1'' ''acc-2'' (fl (6 / 100)) (initialState []))) < totalBalance (initialState [])
   \<and> sum_list (map balance (mockAccounts (snd (transferFunds 1700000000000 1700000001000
          1700000001000 ''acc-1'' ''acc-2'' (fl (6 / 100)) (initialState [])))))
       < sum_list (map balance (mockAccounts (initialState [])))
   \<and> fst (transferFunds 1700000000000 1700000001000 1700000001000 ''acc-1'' ''acc-2''
          (32001 / 8) (initialState []))
     = Inr \<lparr>success = True, msg_amount = 32001 / 8, msg_from = ''Checking Account'',
            msg_to = ''Savings Account''\<rparr>
   \<and> map balance (mockAccounts (snd (transferFunds 1700000000000 1700000001000 1700000001000
          ''acc-1'' ''acc-2'' (32001 / 8) (initialState []))))
       = [fl (124563 / 100), fl (1673553 / 100)]
   \<and> totalCents (initialState []) = 1798115
   \<and> totalCents (snd (transferFunds 1700000000000 1700000001000 1700000001000
          ''acc-1'' ''acc-2'' (32001 / 8) (initialState []))) = 1798116"
proof -
  let ?r = "transferFunds 1700000000000 1700000001000 1700000001000 ''acc-1'' ''acc-2''
              (fl (6 / 100)) (initialState [])"
  let ?q = "transferFunds 1700000000000 1700000001000 1700000001000 ''acc-1'' ''acc-2''
              (32001 / 8) (initialState [])"
  have n: "\<not> balance (seedAccounts ! 0) < fl (6 / 100)"
    by (simp add: seeded_find fl_eval)
  have r1: "fst ?r = Inr \<lparr>success = True, msg_amount = fl (6 / 100),
      msg_from = ''Checking Account'', msg_to = ''Savings Account''\<rparr>"
    using seeded_transfer(1) [OF n] by (simp add: seeded_find)
  have r2: "map balance (mockAccounts (snd ?r)) = [fl (524569 / 100), fl (1273546 / 100)]"
    unfolding seeded_transfer(2) [OF n] by (simp add: assign_eval)
  have r3: "totalBalance (initialState []) = 2471310438223053 / 2 ^ 37"
    by (simp add: totalBalance_def initialState_def seedAccounts_def fl_eval Let_def)
  have r4: "totalBalance (snd ?r) = 4942620876446105 / 2 ^ 38"
    unfolding totalBalance_def r2 by (simp add: fl_eval Let_def)
  have r5: "totalBalance (snd ?r) < totalBalance (initialState [])"
    unfolding r3 r4 by simp
  have r6: "sum_list (map balance (mockAccounts (snd ?r)))
              < sum_list (map balance (mockAccounts (initialState [])))"
    unfolding r2 by (simp add: initialState_def seedAccounts_def fl_eval Let_def)
  have m: "\<not> balance (seedAccounts ! 0) < 32001 / 8"
    by (simp add: seeded_find)
  have q1: "fst ?q = Inr \<lparr>success = True, msg_amount = 32001 / 8,
      msg_from = ''Checking Account'', msg_to = ''Savings Account''\<rparr>"
    using seeded_transfer(1) [OF m] by (simp add: seeded_find)
  have q2: "map balance (mockAccounts (snd ?q)) = [fl (124563 / 100), fl (1673553 / 100)]"
    unfolding seeded_transfer(2) [OF m] by (simp add: assign_eval)
  have q3: "totalCents (initialState []) = 1798115"
    by (simp add: totalCents_def initialState_def seedAccounts_def centsOf_def fl_eval Let_def)
  have "map (\<lambda>acc. centsOf (balance acc)) (mockAccounts (snd ?q))
          = map centsOf (map balance (mockAccounts (snd ?q)))"
    by simp
  then have q4: "totalCents (snd ?q) = 1798116"
    unfolding totalCents_def q2 by (simp add: centsOf_def fl_eval Let_def)
  from r1 r2 r3 r4 r5 r6 q1 q2 q3 q4 show ?thesis
    by (intro conjI)
qed

text \<open>
  C3, as the service has it. From the seeded ledger, when the calls of
  \<open>transferFunds\<close> do not overlap (each has come to its end before the next is
  made) and no amount is negative, no balance is negative after any event of the run; the
  ids are arbitrary and a call may fail. \<open>take n (serial cs)\<close> is the run up to its
  \<open>n\<close>-th event.
\<close>

theorem balances_never_negative:
  assumes "\<forall>c \<in> set cs. 0 \<le> call_amount c"
  shows "\<forall>acc \<in> set (mockAccounts (fst (runEvents (initialState txs, []) (take n (serial cs))))).
           0 \<le> balance acc"
proof (rule serial_nonneg)
  show "\<forall>acc \<in> set (mockAccounts (initialState txs)). 0 \<le> balance acc"
    by (simp add: initialState_def seedAccounts_def fl_nonneg)
  show "\<forall>c \<in> set cs. 0 \<le> call_amount c"
    by (rule assms)
qed

theorem balances_never_negative_witness:
  "list_all (\<lambda>c. 0 \<le> call_amount c)
     [\<lparr>call_now = 1700000000000, call_txDate = 1700000001000, call_txNow = 1700000001000,
       call_from = ''acc-1'', call_to = ''acc-2'', call_amount = 5245\<rparr>,
      \<lparr>call_now = 1700000002000, call_txDate = 1700000003000, call_txNow = 1700000003000,
       call_from = ''acc-1'', call_to = ''acc-2'', call_amount = 3 / 4\<rparr>,
      \<lparr>call_now = 1700000004000, call_txDate = 1700000005000, call_txNow = 1700000005000,
       call_from = ''acc-1'', call_to = ''acc-2'', call_amount = 1\<rparr>]
   \<and> list_all (\<lambda>acc. 0 \<le> balance acc)
      (mockAccounts (fst (runEvents (initialState [], [])
        (take 6 (serial
          [\<lparr>call_now = 1700000000000, call_txDate = 1700000001000, call_txNow = 1700000001000,
            call_from = ''acc-1'', call_to = ''acc-2'', call_amount = 5245\<rparr>,
           \<lparr>call_now = 1700000002000, call_txDate = 1700000003000, call_txNow = 1700000003000,
            call_from = ''acc-1'', call_to = ''acc-2'', call_amount = 3 / 4\<rparr>,
           \<lparr>call_now = 1700000004000, call_txDate = 1700000005000, call_txNow = 1700000005000,
            call_from = ''acc-1'', call_to = ''acc-2'', call_amount = 1\<rparr>])))))"
proof -
  let ?cs = "[\<lparr>call_now = 1700000000000, call_txDate = 1700000001000, call_txNow = 1700000001000,
       call_from = ''acc-1'', call_to = ''acc-2'', call_amount = 5245\<rparr>,
      \<lparr>call_now = 1700000002000, call_txDate = 1700000003000, call_txNow = 1700000003000,
       call_from = ''acc-1'', call_to = ''acc-2'', call_amount = 3 / 4\<rparr>,
      \<lparr>call_now = 1700000004000, call_txDate = 1700000005000, call_txNow = 1700000005000,
       call_from = ''acc-1'', call_to = ''acc-2'', call_amount = 1\<rparr>]"
  have h: "\<forall>c \<in> set ?cs. 0 \<le> call_amount c"
    by simp
  have "\<forall>acc \<in> set (mockAccounts (fst (runEvents (initialState [], []) (take 6 (serial ?cs))))).
          0 \<le> balance acc"
    by (rule balances_never_negative [OF h])
  with h show ?thesis
    by (simp only: list_all_iff)
qed

text \<open>
  C3 as stated does not hold, for two reasons. The balance is compared with the amount
  before the \<open>await\<close> and written after it: when two transfers of 5000 from
  checking (5245.75) to savings are both called before the timer of the first fires,
  both pass the comparison, and after the two timers checking is at \<open>-4754.25\<close> and
  savings at 22735.40. And the service has no check of the sign of the amount, for which
  the comparison \<open>balance < amount\<close> is false: a single transfer of \<open>-20000\<close>
  from checking to savings succeeds and leaves savings at \<open>-7264.60\<close>.
\<close>

theorem overlapping_transfers_counterexample:
  "map balance (mockAccounts (fst (runEvents (initialState [], [])
     [Call \<lparr>call_now = 1700000000000, call_txDate = 1700000001000, call_txNow = 1700000001000,
            call_from = ''acc-1'', call_to = ''acc-2'', call_amount = 5000\<rparr>,
      Call \<lparr>call_now = 1700000000500, call_txDate = 1700000001500, call_txNow = 1700000001500,
            call_from = ''acc-1'', call_to = ''acc-2'', call_amount = 5000\<rparr>,
      TimerFires, TimerFires])))
   = [- (19017 / 4), fl (2273540 / 100)]
   \<and> map balance (mockAccounts (fst (runEvents (initialState [], [])
       (serial [\<lparr>call_now = 1700000000000, call_txDate = 1700000001000,
                 call_txNow = 1700000001000, call_from = ''acc-1'', call_to = ''acc-2'',
                 call_amount = - 20000\<rparr>]))))
   = [100983 / 4, - fl (726460 / 100)]
   \<and> - fl (726460 / 100) < 0"
proof -
  let ?c1 = "\<lparr>call_now = 1700000000000, call_txDate = 1700000001000, call_txNow = 1700000001000,
            call_from = ''acc-1'', call_to = ''acc-2'', call_amount = 5000\<rparr>"
  let ?c2 = "\<lparr>call_now = 1700000000500, call_txDate = 1700000001500, call_txNow = 1700000001500,
            call_from = ''acc-1'', call_to = ''acc-2'', call_amount = 5000\<rparr>"
  let ?c3 = "\<lparr>call_now = 1700000000000, call_txDate = 1700000001000,
                 call_txNow = 1700000001000, call_from = ''acc-1'', call_to = ''acc-2'',
                 call_amount = - 20000\<rparr>"
  let ?p = "\<lparr>pend_from = 0, pend_to = 1, pend_amount = 5000\<rparr>"
  let ?s1 = "snd (checkRateLimit 1700000000000 (initialState []))"
  let ?s2 = "snd (checkRateLimit 1700000000500 ?s1)"
  have m: "mockAccounts (initialState []) = seedAccounts"
    by (simp add: initialState_def)
  have e1: "runEvent (initialState [], []) (Call ?c1) = (?s1, [(?c1, ?p)])"
    using call_passed [of ?c1 "initialState []" 0 1 "[]"]
    by (simp add: initial_admits m seeded_find)
  have a2: "fst (checkRateLimit 1700000000500 ?s1)"
    by (simp add: limiter_eval)
  have e2: "runEvent (?s1, [(?c1, ?p)]) (Call ?c2) = (?s2, [(?c1, ?p), (?c2, ?p)])"
    using call_passed [of ?c2 ?s1 0 1 "[(?c1, ?p)]"] a2
    by (simp add: checkRateLimit_frame m seeded_find)
  have m2: "mockAccounts ?s2 = seedAccounts"
    by (simp add: checkRateLimit_frame m)
  have l: "length seedAccounts = 2"
    by (simp add: seedAccounts_def)
  have "runEvents (initialState [], []) [Call ?c1, Call ?c2, TimerFires, TimerFires]
          = (snd (transferFunds_resume 1700000001500 1700000001500 ?p
                (snd (transferFunds_resume 1700000001000 1700000001000 ?p ?s2))), [])"
    by (simp only: runEvents_simps e1 e2 runEvent.simps(3) transfer_call.simps)
  then have "mockAccounts (fst (runEvents (initialState [], []) [Call ?c1, Call ?c2, TimerFires, TimerFires]))
          = credited (debited (credited (debited seedAccounts 0 5000) 1 5000) 0 5000) 1 5000"
    by (simp add: resume_accounts m2 l)
  then have o: "map balance (mockAccounts (fst (runEvents (initialState [], [])
      [Call ?c1, Call ?c2, TimerFires, TimerFires]))) = [- (19017 / 4), fl (2273540 / 100)]"
    by (simp add: assign_eval)
  have n: "\<not> balance (seedAccounts ! 0) < - 20000"
    by (simp add: seeded_find)
  have "mockAccounts (fst (runEvents (initialState [], []) (serial [?c3])))
          = credited (debited seedAccounts 0 (- 20000)) 1 (- 20000)"
    using call_then_timer [of "initialState []" ?c3] seeded_transfer(2) [OF n]
    by (simp add: serial_def del: runEvent.simps)
  then have g: "map balance (mockAccounts (fst (runEvents (initialState [], []) (serial [?c3]))))
      = [100983 / 4, - fl (726460 / 100)]"
    by (simp add: assign_eval)
  have "- fl (726460 / 100) < 0"
    by (simp add: fl_eval)
  with o g show ?thesis
    by (intro conjI)
qed

section \<open>Properties of the limiter\<close>

text \<open>
  C10. Every call of \<open>checkRateLimit\<close>, admitted or rejected, sets the limiter's
  timestamp to the clock reading of the call and adds one to the counter (after the
  counter was set to 0, if more than 60 seconds passed since the call before). Each of the
  four methods begins with that call and leaves the limiter as the call left it, whether
  the method then succeeds or fails. So in a sequence of
  calls of which each comes less than 60 seconds after the one before it, once a call is
  rejected every later call is rejected too, however long the sequence lasts.
\<close>

theorem limiter_never_recovers:
  "lastRequestTime (snd (checkRateLimit now s)) = now
   \<and> requestCount (snd (checkRateLimit now s))
       = (if now - lastRequestTime s > 60000 then 0 else requestCount s) + 1
   \<and> lastRequestTime (snd (getBalance now s)) = now
   \<and> requestCount (snd (getBalance now s)) = requestCount (snd (checkRateLimit now s))
   \<and> lastRequestTime (snd (getTransactions now page pageSize s)) = now
   \<and> requestCount (snd (getTransactions now page pageSize s))
       = requestCount (snd (checkRateLimit now s))
   \<and> lastRequestTime (snd (transferFunds now txDate txNow fromId toId amount s)) = now
   \<and> requestCount (snd (transferFunds now txDate txNow fromId toId amount s))
       = requestCount (snd (checkRateLimit now s))
   \<and> lastRequestTime (snd (ApiService_generateInvoice now addDays r1 r2 r3 currentDate nowId
         startDate endDate s)) = now
   \<and> requestCount (snd (ApiService_generateInvoice now addDays r1 r2 r3 currentDate nowId
         startDate endDate s)) = requestCount (snd (checkRateLimit now s))
   \<and> (spaced ts \<and> i < j \<and> j < length ts \<and> \<not> checkRateLimits s ts ! i
        \<longrightarrow> \<not> checkRateLimits s ts ! j)"
  using once_rejected [of ts i j s]
  by (simp add: checkRateLimit_fields(1,2) limiter_after_call limiter_after_transfer)

theorem limiter_never_recovers_witness:
  "spaced [1700000000000, 1700000059000, 1700000118000, 1700000177000, 1700000236000,
      1700000295000, 1700000354000, 1700000413000, 1700000472000, 1700000531000,
      1700000590000, 1700000649000]
   \<and> (10::nat) < 11 \<and> (11::nat) < length [1700000000000, 1700000059000, 1700000118000, 1700000177000, 1700000236000,
      1700000295000, 1700000354000, 1700000413000, 1700000472000, 1700000531000,
      1700000590000, (1700000649000::int)]
   \<and> \<not> checkRateLimits (initialState [])
     [1700000000000, 1700000059000, 1700000118000, 1700000177000, 1700000236000,
      1700000295000, 1700000354000, 1700000413000, 1700000472000, 1700000531000,
      1700000590000, 1700000649000] ! 10
   \<and> \<not> checkRateLimits (initialState [])
     [1700000000000, 1700000059000, 1700000118000, 1700000177000, 1700000236000,
      1700000295000, 1700000354000, 1700000413000, 1700000472000, 1700000531000,
      1700000590000, 1700000649000] ! 11"
proof -
  let ?ts = "[1700000000000, 1700000059000, 1700000118000, 1700000177000, 1700000236000,
      1700000295000, 1700000354000, 1700000413000, 1700000472000, 1700000531000,
      1700000590000, 1700000649000 :: int]"
  have a: "spaced ?ts" by simp
  have b: "\<not> checkRateLimits (initialState []) ?ts ! 10"
    by (simp add: limiter_eval)
  from limiter_never_recovers [where s = "initialState []" and ts = ?ts and i = 10 and j = 11]
    a b
  show ?thesis by simp
qed

text \<open>
  C4, at the input where the service departs from it. Eleven calls on the fresh service,
  one every 10 seconds: the eighth call comes 70 seconds after the first, which is when a
  window of 60 seconds that began with the first call is over. The limiter of the
  specification starts a new window there and admits all eleven calls. The service does
  not reset its counter, since each call is 10 seconds after the one before it, and
  rejects the eleventh. (What C4 says of the first ten calls after a reset, of an
  eleventh call within 60 seconds of it and of the first call after a reset does hold:
  \<open>call_after_gap\<close>, \<open>counts_without_gap\<close>.)
\<close>

theorem limiter_steady_calls:
  "checkRateLimits (initialState [])
     [1700000000000, 1700000010000, 1700000020000, 1700000030000, 1700000040000,
      1700000050000, 1700000060000, 1700000070000, 1700000080000, 1700000090000,
      1700000100000]
   = [True, True, True, True, True, True, True, True, True, True, False]
   \<and> spec_admits \<lparr>window_requestCount = 0, windowStartTime = 0\<rparr>
     [1700000000000, 1700000010000, 1700000020000, 1700000030000, 1700000040000,
      1700000050000, 1700000060000, 1700000070000, 1700000080000, 1700000090000,
      1700000100000]
   = [True, True, True, True, True, True, True, True, True, True, True]"
  by (simp add: limiter_eval spec_admit_def)


section \<open>Properties of the queries\<close>

lemma getTransactions_state:
  "snd (getTransactions now page pageSize s) = snd (checkRateLimit now s)"
proof -
  obtain b s1 where c: "checkRateLimit now s = (b, s1)"
    by (cases "checkRateLimit now s")
  show ?thesis
    by (cases b) (simp_all add: getTransactions_def c)
qed

lemma read_page:
  assumes "1 \<le> page" and "1 \<le> pageSize"
  shows "getTransactions_read page pageSize s
           = \<lparr>data = take (nat pageSize) (drop (nat ((page - 1) * pageSize)) (mockTransactions s)),
              total = length (mockTransactions s)\<rparr>"
proof -
  have st: "0 \<le> (page - 1) * pageSize" "(page - 1) * pageSize \<le> (page - 1) * pageSize + pageSize"
    using assms by simp_all
  show ?thesis
    using slice_take_drop [OF st, of "mockTransactions s"]
    by (simp add: getTransactions_read_def Let_def)
qed

text \<open>
  C5, as the service has it. For \<open>page\<close> and \<open>pageSize\<close> of at least 1, a call
  of \<open>getTransactions\<close> fails with \<open>RateLimited\<close> when the limiter rejects it.
  Otherwise it returns the length of the log as \<open>total\<close> and, as \<open>data\<close>, the
  records of the log from position \<open>(page - 1) * pageSize\<close> on, at most
  \<open>pageSize\<close> of them, in the order of the log; this is what the code after the
  \<open>await\<close> reads from the log as it is then. The length of \<open>data\<close> is
  \<open>min pageSize (max 0 (total - (page - 1) * pageSize))\<close>; \<open>data\<close> is empty
  exactly when the page starts at or after the end of the log. The log is not changed.
  The log is newest first: \<open>generateTransactions\<close> returns it so, a transfer
  whose clock is not behind the dates in the log keeps it so, and then every page is
  newest first as well.
\<close>

theorem getTransactions_page:
  assumes "1 \<le> page" and "1 \<le> pageSize"
  shows "fst (getTransactions now page pageSize s)
           = (if fst (checkRateLimit now s)
              then Inr \<lparr>data = take (nat pageSize)
                               (drop (nat ((page - 1) * pageSize)) (mockTransactions s)),
                        total = length (mockTransactions s)\<rparr>
              else Inl RateLimited)
         \<and> getTransactions_read page pageSize s
             = \<lparr>data = take (nat pageSize) (drop (nat ((page - 1) * pageSize)) (mockTransactions s)),
                total = length (mockTransactions s)\<rparr>
         \<and> mockTransactions (snd (getTransactions now page pageSize s)) = mockTransactions s
         \<and> int (length (take (nat pageSize) (drop (nat ((page - 1) * pageSize)) (mockTransactions s))))
             = min pageSize (max 0 (int (length (mockTransactions s)) - (page - 1) * pageSize))
         \<and> (take (nat pageSize) (drop (nat ((page - 1) * pageSize)) (mockTransactions s)) = [])
             = (int (length (mockTransactions s)) \<le> (page - 1) * pageSize)
         \<and> (newestFirst (mockTransactions s) \<longrightarrow>
              newestFirst (take (nat pageSize) (drop (nat ((page - 1) * pageSize)) (mockTransactions s))))
         \<and> newestFirst (generateTransactions addDays draws)
         \<and> (newestFirst (mockTransactions s) \<and> (\<forall>t \<in> set (mockTransactions s). tx_date t \<le> txDate) \<longrightarrow>
              newestFirst (mockTransactions
                (snd (transferFunds now' txDate txNow fromId toId amount s))))"
proof -
  let ?d = "take (nat pageSize) (drop (nat ((page - 1) * pageSize)) (mockTransactions s))"
  obtain b s1 where c: "checkRateLimit now s = (b, s1)"
    by (cases "checkRateLimit now s")
  have f: "mockTransactions s1 = mockTransactions s"
    using checkRateLimit_frame(2) [of now s] c by simp
  have rd: "getTransactions_read page pageSize s1
              = \<lparr>data = ?d, total = length (mockTransactions s)\<rparr>"
    unfolding read_page [OF assms] f ..
  have g: "fst (getTransactions now page pageSize s)
             = (if fst (checkRateLimit now s)
                then Inr \<lparr>data = ?d, total = length (mockTransactions s)\<rparr>
                else Inl RateLimited)"
    by (cases b) (simp_all add: getTransactions_def c rd)
  have u: "mockTransactions (snd (getTransactions now page pageSize s)) = mockTransactions s"
    by (simp add: getTransactions_state checkRateLimit_frame)
  have st: "0 \<le> (page - 1) * pageSize"
    using assms by simp
  have l: "int (length ?d)
             = min pageSize (max 0 (int (length (mockTransactions s)) - (page - 1) * pageSize))"
    using st assms(2) by (intro length_take_drop_int) simp_all
  have e: "(?d = []) = (int (length (mockTransactions s)) \<le> (page - 1) * pageSize)"
  proof -
    have "(?d = []) = (int (length ?d) = 0)"
      by (simp only: of_nat_eq_0_iff length_0_conv)
    also have "\<dots> = (int (length (mockTransactions s)) \<le> (page - 1) * pageSize)"
      unfolding l using assms(2) by (simp add: min_def max_def)
    finally show ?thesis .
  qed
  have n: "newestFirst (mockTransactions s) \<longrightarrow> newestFirst ?d"
    by (simp add: newestFirst_take_drop)
  have t: "newestFirst (mockTransactions s) \<and> (\<forall>t \<in> set (mockTransactions s). tx_date t \<le> txDate) \<longrightarrow>
             newestFirst (mockTransactions
               (snd (transferFunds now' txDate txNow fromId toId amount s)))"
    using transfer_keeps_newestFirst [of s txDate now' txNow fromId toId amount] by blast
  have k: "newestFirst (generateTransactions addDays draws)"
    unfolding generateTransactions_def by (rule newestFirst_sort_key)
  from g read_page [OF assms, of s] u l e n k t show ?thesis
    by (intro conjI)
qed

theorem getTransactions_page_witness:
  "fst (getTransactions 1700000000000 2 2 (initialState sampleLog))
       = Inr \<lparr>data = [sampleLog ! 2], total = 3\<rparr>
   \<and> fst (getTransactions 1700000000000 3 2 (initialState sampleLog))
       = Inr \<lparr>data = [], total = 3\<rparr>
   \<and> newestFirst sampleLog
   \<and> list_all (\<lambda>t. tx_date t \<le> 1700000001000) sampleLog
   \<and> newestFirst (mockTransactions (snd (transferFunds 1700000000500 1700000001000
         1700000001000 ''acc-1'' ''acc-2'' 100 (initialState sampleLog))))
   \<and> newestFirst (generateTransactions utcDays sampleDraws)
   \<and> map (\<lambda>t. (tx_id t, tx_date t)) (generateTransactions utcDays sampleDraws)
       = [(''tx-2'', 1699740800001), (''tx-3'', 1698704000002), (''tx-1'', 1698704000000)]"
proof -
  have a: "fst (checkRateLimit 1700000000000 (initialState sampleLog))"
    by (rule initial_admits)
  have l: "mockTransactions (initialState sampleLog) = sampleLog" "length sampleLog = 3"
    by (simp_all add: initialState_def sampleLog_def)
  have o: "newestFirst sampleLog"
    by (simp add: newestFirst_def sampleLog_def)
  have d: "\<forall>t \<in> set sampleLog. tx_date t \<le> 1700000001000"
    by (simp add: sampleLog_def)
  then have d': "list_all (\<lambda>t. tx_date t \<le> 1700000001000) sampleLog"
    by (simp only: list_all_iff)
  note p2 = getTransactions_page [of 2 2 1700000000000 "initialState sampleLog" utcDays
      sampleDraws 1700000001000 1700000000500 1700000001000 "''acc-1''" "''acc-2''" 100,
      unfolded l]
  note p3 = getTransactions_page [of 3 2 1700000000000 "initialState sampleLog" utcDays
      sampleDraws 1700000001000 1700000000500 1700000001000 "''acc-1''" "''acc-2''" 100,
      unfolded l]
  have g2: "fst (getTransactions 1700000000000 2 2 (initialState sampleLog))
       = Inr \<lparr>data = [sampleLog ! 2], total = 3\<rparr>"
    using p2 a by (simp add: sampleLog_def)
  have g3: "fst (getTransactions 1700000000000 3 2 (initialState sampleLog))
       = Inr \<lparr>data = [], total = 3\<rparr>"
    using p3 a by (simp add: sampleLog_def)
  have t: "newestFirst (mockTransactions (snd (transferFunds 1700000000500 1700000001000
         1700000001000 ''acc-1'' ''acc-2'' 100 (initialState sampleLog))))"
    using p2 o d by simp
  have k: "newestFirst (generateTransactions utcDays sampleDraws)"
    using p2 by simp
  have v: "map (\<lambda>t. (tx_id t, tx_date t)) (generateTransactions utcDays sampleDraws)
       = [(''tx-2'', 1699740800001), (''tx-3'', 1698704000002), (''tx-1'', 1698704000000)]"
    by (simp add: generateTransactions_def sampleDraws_def drawTransaction_def utcDays_def
          show_int_def show_nat.simps digit_char_def fl_eval)
  from g2 g3 o d' t k v show ?thesis
    by (intro conjI)
qed

text \<open>
  C5 as stated, for every call with \<open>page\<close> and \<open>pageSize\<close> of at least 1, does
  not hold: the call goes through the limiter first. On the fresh service, of eleven calls
  of \<open>getTransactions(1, 10)\<close> made one second apart the eleventh fails with
  \<open>RateLimited\<close> and returns no page.
\<close>

theorem getTransactions_limited_counterexample:
  "(1 :: int) \<le> 1 \<and> (1 :: int) \<le> 10
   \<and> fst (getTransactions 1700000010000 1 10
         (foldl (\<lambda>s now. snd (getTransactions now 1 10 s)) (initialState sampleLog)
            [1700000000000, 1700000001000, 1700000002000, 1700000003000, 1700000004000,
             1700000005000, 1700000006000, 1700000007000, 1700000008000, 1700000009000]))
       = Inl RateLimited"
proof -
  let ?s = "foldl (\<lambda>s now. snd (getTransactions now 1 10 s)) (initialState sampleLog)
            [1700000000000, 1700000001000, 1700000002000, 1700000003000, 1700000004000,
             1700000005000, 1700000006000, 1700000007000, 1700000008000, 1700000009000]"
  have "requestCount ?s = 10 \<and> lastRequestTime ?s = 1700000009000"
    by (simp add: getTransactions_state limiter_eval)
  then have "\<not> fst (checkRateLimit 1700000010000 ?s)"
    by (simp add: checkRateLimit_fields(3))
  then obtain s1 where "checkRateLimit 1700000010000 ?s = (False, s1)"
    by (cases "checkRateLimit 1700000010000 ?s") auto
  then show ?thesis
    by (simp add: getTransactions_def)
qed

text \<open>
  C7, as the service has it. \<open>generateInvoice\<close> returns an invoice whenever the
  limiter admits the call, for every pair of dates in either order, and fails with
  \<open>RateLimited\<close> otherwise; the invoice does not depend on the two dates. The
  service never compares them (the invoice form does, before it calls the service).
\<close>

theorem generateInvoice_any_range:
  "fst (ApiService_generateInvoice now addDays r1 r2 r3 currentDate nowId startDate endDate s)
     = (if fst (checkRateLimit now s)
        then Inr (generateInvoice addDays r1 r2 r3 currentDate nowId startDate endDate)
        else Inl RateLimited)
   \<and> generateInvoice addDays r1 r2 r3 currentDate nowId startDate endDate
       = generateInvoice addDays r1 r2 r3 currentDate nowId startDate' endDate'"
  by (cases "checkRateLimit now s")
     (auto simp: ApiService_generateInvoice_def generateInvoice_def)

theorem generateInvoice_any_range_witness:
  "fst (ApiService_generateInvoice 1700000000000 utcDays 0 0 0 1700000001200 1700000001200
          ''2024-01-01T00:00:00'' ''2024-02-01T00:00:00'' (initialState []))
     = Inr (generateInvoice utcDays 0 0 0 1700000001200 1700000001200
          ''2024-02-01T00:00:00'' ''2024-01-01T00:00:00'')"
proof -
  have a: "fst (checkRateLimit 1700000000000 (initialState []))"
    by (simp add: limiter_eval)
  from generateInvoice_any_range [of 1700000000000 utcDays 0 0 0 1700000001200 1700000001200
      "''2024-01-01T00:00:00''" "''2024-02-01T00:00:00''" "initialState []"
      "''2024-02-01T00:00:00''" "''2024-01-01T00:00:00''"] a
  show ?thesis by simp
qed

text \<open>
  C7 as stated does not hold: with a start date after the end date the call returns an
  invoice. Here the three random numbers are 0 and the calendar is that of UTC; the
  total is the binary64 sum of 1, 29.99, 2.5 and 0, which is 33.489999999999995.
\<close>

theorem generateInvoice_reversed_range_counterexample:
  "(''2024-01-01T00:00:00'' :: string) < ''2024-02-01T00:00:00''
   \<and> fst (ApiService_generateInvoice 1700000000000 utcDays 0 0 0 1700000001200 1700000001200
          ''2024-02-01T00:00:00'' ''2024-01-01T00:00:00'' (initialState []))
     = Inr \<lparr>inv_id = ''inv-1700000001200'', inv_date = 1700000001200, dueDate = 1701296001200,
            items =
              [\<lparr>item_description = ''API Calls - Basic Tier'', quantity = 100,
                unitPrice = fl (1 / 100), item_amount = 1\<rparr>,
               \<lparr>item_description = ''Premium Features Access'', quantity = 1,
                unitPrice = fl (2999 / 100), item_amount = fl (2999 / 100)\<rparr>,
               \<lparr>item_description = ''Data Storage (GB)'', quantity = 5,
                unitPrice = 1 / 2, item_amount = 5 / 2\<rparr>,
               \<lparr>item_description = ''Support Requests'', quantity = 0,
                unitPrice = 15, item_amount = 0\<rparr>],
            inv_total = 2356649242509967 / 2 ^ 46, inv_status = InvPending\<rparr>"
proof -
  have a: "fst (checkRateLimit 1700000000000 (initialState []))"
    by (rule initial_admits)
  then obtain s1 where c: "checkRateLimit 1700000000000 (initialState []) = (True, s1)"
    by (cases "checkRateLimit 1700000000000 (initialState [])") auto
  have i: "generateInvoice utcDays 0 0 0 1700000001200 1700000001200
          ''2024-02-01T00:00:00'' ''2024-01-01T00:00:00''
     = \<lparr>inv_id = ''inv-1700000001200'', inv_date = 1700000001200, dueDate = 1701296001200,
            items =
              [\<lparr>item_description = ''API Calls - Basic Tier'', quantity = 100,
                unitPrice = fl (1 / 100), item_amount = 1\<rparr>,
               \<lparr>item_description = ''Premium Features Access'', quantity = 1,
                unitPrice = fl (2999 / 100), item_amount = fl (2999 / 100)\<rparr>,
               \<lparr>item_description = ''Data Storage (GB)'', quantity = 5,
                unitPrice = 1 / 2, item_amount = 5 / 2\<rparr>,
               \<lparr>item_description = ''Support Requests'', quantity = 0,
                unitPrice = 15, item_amount = 0\<rparr>],
            inv_total = 2356649242509967 / 2 ^ 46, inv_status = InvPending\<rparr>"
    by (simp add: generateInvoice_def utcDays_def Let_def
          show_int_def show_nat.simps digit_char_def)
       (simp add: toFixed2_def fl_eval)
  have "(''2024-01-01T00:00:00'' :: string) < ''2024-02-01T00:00:00''"
    by simp
  then show ?thesis
    by (simp add: ApiService_generateInvoice_def c i)
qed

section \<open>Properties of the session\<close>

text \<open>
  C9. After a successful \<open>login\<close>, a provider started afresh on the
  \<open>localStorage\<close> that \<open>login\<close> left (no user in memory, \<open>loading\<close>
  set) mounts without error; then \<open>checkToken\<close> is true and the current user is
  the user that \<open>login\<close> set.
\<close>

theorem session_round_trip:
  assumes "login email password s = (Inr (), s')"
  shows "\<exists>s''. AuthProvider (localStorage s') = Inr s''
           \<and> checkToken s'' \<and> user s'' = user s' \<and> user s' \<noteq> None"
proof -
  from assms obtain u where u: "u = demoUser \<or> u = adminUser"
    and us: "user s' = Some u"
    and st: "localStorage s' ''fintech_user'' = Some (JSON_stringify u)"
    and tk: "truthy (localStorage s' ''fintech_token'')"
    by (rule login_cases)
  from u have p: "JSON_parse (JSON_stringify u) = Some u"
    using demo_round_trip admin_round_trip by blast
  have "AuthProvider (localStorage s')
          = Inr \<lparr>user = Some u, loading = False, localStorage = localStorage s'\<rparr>"
    using st tk p by (simp add: AuthProvider_def checkAuth_def JSON_stringify_nonempty)
  then show ?thesis
    using tk us by (simp add: checkToken_def)
qed

theorem session_round_trip_witness:
  "fst (login ''demo@example.com'' ''password''
          \<lparr>user = None, loading = False, localStorage = Map.empty\<rparr>) = Inr ()
   \<and> (\<exists>s''. AuthProvider (localStorage (snd (login ''demo@example.com'' ''password''
                 \<lparr>user = None, loading = False, localStorage = Map.empty\<rparr>))) = Inr s''
          \<and> checkToken s''
          \<and> user s'' = Some [(''id'', JStr ''user-1''), (''email'', JStr ''demo@example.com''),
                (''name'', JStr ''Demo User''), (''role'', JStr ''user''),
                (''isSubscribed'', JBool False)])"
proof -
  let ?r = "login ''demo@example.com'' ''password''
              \<lparr>user = None, loading = False, localStorage = Map.empty\<rparr>"
  have r: "fst ?r = Inr ()"
    by (simp add: login_def MOCK_USERS_def Let_def)
  then have f: "?r = (Inr (), snd ?r)"
    by (metis prod.collapse)
  have u: "user (snd ?r) = Some [(''id'', JStr ''user-1''), (''email'', JStr ''demo@example.com''),
                (''name'', JStr ''Demo User''), (''role'', JStr ''user''),
                (''isSubscribed'', JBool False)]"
    by (simp add: login_def MOCK_USERS_def Let_def)
  from session_round_trip [OF f] r u show ?thesis by auto
qed

end

